theory Spec2Isabelle
  imports Main "HOL-Library.Word" "HOL-Library.Multiset"
begin

section \<open>Values that arrive from clients\<close>

text \<open>
  A JavaScript string is a sequence of UTF-16 code units. Event payloads and JSON bodies
  are duck-typed, so a field may be absent or of another type; the handlers only ever
  test such a field for truthiness, call \<^verbatim>\<open>trim\<close> or \<^verbatim>\<open>toString\<close> on it, or
  hand it to Mongoose. Numbers and nested objects are left out of the value universe.
\<close>

type_synonym jsstring = "16 word list"

datatype jsval = JUndefined | JNull | JBool bool | JStr jsstring

definition ascii :: "string \<Rightarrow> jsstring" where
  "ascii s = map of_char s"

text \<open>\<^verbatim>\<open>!v\<close> is false exactly for the truthy values.\<close>

fun truthy :: "jsval \<Rightarrow> bool" where
  "truthy JUndefined = False"
| "truthy JNull = False"
| "truthy (JBool b) = b"
| "truthy (JStr s) = (s \<noteq> [])"

text \<open>
  \<^verbatim>\<open>String.prototype.trim\<close> removes the ECMAScript WhiteSpace and LineTerminator
  code points from both ends; all of them lie in the basic plane, so the test is on
  single code units.
\<close>

definition is_js_space :: "16 word \<Rightarrow> bool" where
  "is_js_space c \<longleftrightarrow>
     c \<in> {0x09, 0x0A, 0x0B, 0x0C, 0x0D, 0x20, 0xA0, 0x1680, 0x2028, 0x2029,
          0x202F, 0x205F, 0x3000, 0xFEFF} \<or> (0x2000 \<le> c \<and> c \<le> 0x200A)"

definition trim :: "jsstring \<Rightarrow> jsstring" where
  "trim s = rev (dropWhile is_js_space (rev (dropWhile is_js_space s)))"

text \<open>
  \<^verbatim>\<open>v.toString()\<close> for the values that have the method; \<^verbatim>\<open>undefined\<close> and
  \<^verbatim>\<open>null\<close> have none and the call throws a TypeError (\<open>None\<close>).
\<close>

fun js_toString :: "jsval \<Rightarrow> jsstring option" where
  "js_toString (JStr s) = Some s"
| "js_toString (JBool b) = Some (ascii (if b then ''true'' else ''false''))"
| "js_toString JUndefined = None"
| "js_toString JNull = None"

section \<open>Object ids\<close>

text \<open>
  A MongoDB ObjectId is a 12-byte value. \<^verbatim>\<open>toString\<close> yields its 24 lower-case
  hexadecimal digits; Mongoose casts a string of 24 hexadecimal digits of either case to
  the id it denotes, and \<^verbatim>\<open>mongoose.Types.ObjectId.isValid\<close> accepts such strings.
  (The raw 12-character form that some driver versions also accept is not modelled.)
\<close>

type_synonym objectid = "96 word"

definition hex_digit :: "nat \<Rightarrow> 16 word" where
  "hex_digit d = (if d < 10 then 0x30 + of_nat d else 0x61 + of_nat (d - 10))"

fun hex_digits :: "nat \<Rightarrow> nat \<Rightarrow> jsstring" where
  "hex_digits 0 n = []"
| "hex_digits (Suc k) n = hex_digits k (n div 16) @ [hex_digit (n mod 16)]"

definition oid_toString :: "objectid \<Rightarrow> jsstring" where
  "oid_toString w = hex_digits 24 (unat w)"

definition hex_value :: "16 word \<Rightarrow> nat option" where
  "hex_value c =
     (if 0x30 \<le> c \<and> c \<le> 0x39 then Some (unat c - 0x30)
      else if 0x61 \<le> c \<and> c \<le> 0x66 then Some (unat c - 0x61 + 10)
      else if 0x41 \<le> c \<and> c \<le> 0x46 then Some (unat c - 0x41 + 10)
      else None)"

fun hex_parse :: "nat \<Rightarrow> jsstring \<Rightarrow> nat option" where
  "hex_parse acc [] = Some acc"
| "hex_parse acc (c # cs) =
     (case hex_value c of None \<Rightarrow> None | Some d \<Rightarrow> hex_parse (acc * 16 + d) cs)"

definition castObjectId :: "jsval \<Rightarrow> objectid option" where
  "castObjectId v =
     (case v of
        JStr s \<Rightarrow> (if length s = 24 then map_option of_nat (hex_parse 0 s) else None)
      | _ \<Rightarrow> None)"

definition isValid :: "jsval \<Rightarrow> bool" where
  "isValid v \<longleftrightarrow> castObjectId v \<noteq> None"


section \<open>Documents and collections\<close>

text \<open>
  A collection is the list of its documents in insertion order. The User and Post
  documents are owned by other parts of the application; the handlers below read only
  the fields kept here. A time is a \<^verbatim>\<open>Date\<close>: milliseconds since the epoch.
\<close>

type_synonym time = int

text \<open>
  Modelled from the spec: the User schema (\<^verbatim>\<open>models/User.js\<close>) is not among the
  sources. A User is an identity with a name, an email and a photo reference, the fields
  the handlers select with \<^verbatim>\<open>'name email photoURL'\<close>.
\<close>

record user =
  user_id :: objectid
  user_name :: jsstring
  user_email :: jsstring
  user_photoURL :: jsstring

record last_message =
  lm_content :: jsstring
  lm_sender :: "objectid option"
  lm_createdAt :: "time option"

text \<open>\<^verbatim>\<open>models/Conversation.js\<close>, with the two fields of \<^verbatim>\<open>timestamps: true\<close>.\<close>

record conversation =
  conv_id :: objectid
  participants :: "objectid list"
  post :: "objectid option"
  lastMessage :: last_message
  conv_createdAt :: time
  conv_updatedAt :: time

text \<open>
  Modelled from the spec: the Message schema (\<^verbatim>\<open>models/Message.js\<close>) is not among the
  sources. A Message has an id, an immutable conversation reference, an immutable sender
  reference, its content, the \<open>readBy\<close> set and an immutable \<open>createdAt\<close> assigned when
  it is persisted; the fields are the ones the handlers pass to \<^verbatim>\<open>Message.create\<close>.
\<close>

record message =
  msg_id :: objectid
  msg_conversation :: objectid
  msg_sender :: objectid
  msg_content :: jsstring
  readBy :: "objectid list"
  msg_createdAt :: time

record store =
  users :: "user list"
  posts :: "objectid list"
  conversations :: "conversation list"
  messages :: "message list"

text \<open>
  What a request meets outside the program: which database calls throw, the id the driver
  generates for a new document, the clock when a document is created and when one is
  saved, and whether \<^verbatim>\<open>app.get('io')\<close> yields the socket server.
\<close>

datatype db_op =
    User_findById | Post_findById | Conversation_findOne | Conversation_findById
  | Conversation_create | Conversation_save | Message_create | Message_find | Populate

record env =
  fails :: "db_op \<Rightarrow> bool"
  new_id :: objectid
  t_create :: time
  t_save :: time
  io_registered :: bool

definition User_findById_q :: "store \<Rightarrow> objectid \<Rightarrow> user option" where
  "User_findById_q st uid = find (\<lambda>u. user_id u = uid) (users st)"

definition Conversation_findById_q :: "store \<Rightarrow> objectid \<Rightarrow> conversation option" where
  "Conversation_findById_q st cid = find (\<lambda>c. conv_id c = cid) (conversations st)"

text \<open>
  \<^verbatim>\<open>Message.create({conversation, sender, content, readBy})\<close>: the new document, its
  \<open>createdAt\<close> read from the clock, and its insertion at the end of the collection.
\<close>

definition Message_create_q ::
  "env \<Rightarrow> objectid \<Rightarrow> objectid \<Rightarrow> jsstring \<Rightarrow> objectid list \<Rightarrow> message" where
  "Message_create_q e cid sender content rb =
     \<lparr>msg_id = new_id e, msg_conversation = cid, msg_sender = sender,
      msg_content = content, readBy = rb, msg_createdAt = t_create e\<rparr>"

definition insert_message :: "message \<Rightarrow> store \<Rightarrow> store" where
  "insert_message m st = st\<lparr>messages := messages st @ [m]\<rparr>"

text \<open>
  \<^verbatim>\<open>conversation.lastMessage = {...}; await conversation.save()\<close> on the document
  that \<^verbatim>\<open>findById\<close> loaded. The assignment compares the three fields with the ones
  the document holds and marks as modified those that differ. When none does, the document
  is unmodified: the save writes nothing and the timestamps plugin leaves \<open>updatedAt\<close>
  alone. Otherwise the plugin sets \<open>updatedAt\<close> to the clock and the save writes both
  to the stored document with that id. \<open>assign_and_save\<close> is the document in memory
  afterwards, which the handlers read for the \<open>conversation:update\<close> event;
  \<open>save_lastMessage\<close> is the store afterwards.
\<close>

definition assign_and_save :: "env \<Rightarrow> conversation \<Rightarrow> last_message \<Rightarrow> conversation" where
  "assign_and_save e conversation lm =
     (if lastMessage conversation = lm then conversation
      else conversation\<lparr>lastMessage := lm, conv_updatedAt := t_save e\<rparr>)"

definition save_lastMessage :: "env \<Rightarrow> conversation \<Rightarrow> last_message \<Rightarrow> store \<Rightarrow> store" where
  "save_lastMessage e conversation lm st =
     (if lastMessage conversation = lm then st
      else st\<lparr>conversations :=
                map (\<lambda>c. if conv_id c = conv_id conversation
                         then c\<lparr>lastMessage := lm, conv_updatedAt := t_save e\<rparr> else c)
                    (conversations st)\<rparr>)"

text \<open>\<^verbatim>\<open>message.populate('sender', 'name email photoURL')\<close>\<close>

record populated_message =
  pm_message :: message
  pm_sender :: "user option"

definition populate_sender :: "store \<Rightarrow> message \<Rightarrow> populated_message" where
  "populate_sender st m = \<lparr>pm_message = m, pm_sender = User_findById_q st (msg_sender m)\<rparr>"

text \<open>
  \<^verbatim>\<open>conversation.participants.some((participant) => participant.toString() === userId)\<close>
\<close>

definition isParticipant :: "conversation \<Rightarrow> jsstring option \<Rightarrow> bool" where
  "isParticipant c userId \<longleftrightarrow>
     list_ex (\<lambda>participant. Some (oid_toString participant) = userId) (participants c)"

section \<open>The realtime gateway\<close>

text \<open>
  The socket server keeps, for every room name, the set of socket ids joined to it; the
  application keeps \<open>onlineUsers\<close>. A socket carries the user that the handshake
  middleware attached to it.
\<close>

record socket =
  sock_id :: jsstring
  sock_user :: "user option"

record server =
  db :: store
  onlineUsers :: "jsstring \<rightharpoonup> jsstring"
  rooms :: "jsstring \<Rightarrow> jsstring set"

datatype event =
    Connection_ready "jsstring option"
  | Message_new jsstring populated_message
  | Conversation_update jsstring last_message time
  | Message_error string

datatype emit = To_socket jsstring event | To_room jsstring event

text \<open>
  \<^verbatim>\<open>socket.emit\<close> reaches that socket; \<^verbatim>\<open>io.to(room).emit\<close> reaches every socket
  in the room's set, once.
\<close>

fun receives :: "(jsstring \<Rightarrow> jsstring set) \<Rightarrow> jsstring \<Rightarrow> emit \<Rightarrow> bool" where
  "receives rs s (To_socket t ev) = (s = t)"
| "receives rs s (To_room r ev) = (s \<in> rs r)"

fun emitted_event :: "emit \<Rightarrow> event" where
  "emitted_event (To_socket t ev) = ev"
| "emitted_event (To_room r ev) = ev"

definition delivered ::
  "(jsstring \<Rightarrow> jsstring set) \<Rightarrow> emit list \<Rightarrow> jsstring \<Rightarrow> event list" where
  "delivered rs es s = map emitted_event (filter (receives rs s) es)"

text \<open>\<^verbatim>\<open>const userId = socket.user?._id?.toString()\<close>\<close>

definition userId_of :: "socket \<Rightarrow> jsstring option" where
  "userId_of sock = map_option (\<lambda>u. oid_toString (user_id u)) (sock_user sock)"

text \<open>
  \<^verbatim>\<open>io.on('connection')\<close>: the presence entry is installed, \<open>connection:ready\<close> is
  emitted; the socket server has put the socket into the room named by its own id.
\<close>

definition on_connection :: "socket \<Rightarrow> server \<Rightarrow> server \<times> emit list" where
  "on_connection sock srv =
     (srv\<lparr>onlineUsers :=
            (case userId_of sock of
               Some userId \<Rightarrow>
                 if userId \<noteq> [] then (onlineUsers srv)(userId \<mapsto> sock_id sock)
                 else onlineUsers srv
             | None \<Rightarrow> onlineUsers srv),
          rooms := (rooms srv)(sock_id sock := insert (sock_id sock) (rooms srv (sock_id sock)))\<rparr>,
      [To_socket (sock_id sock) (Connection_ready (userId_of sock))])"

definition on_conversation_join :: "socket \<Rightarrow> jsval \<Rightarrow> server \<Rightarrow> server" where
  "on_conversation_join sock conversationId srv =
     (if truthy conversationId
      then (case js_toString conversationId of
              Some r \<Rightarrow> srv\<lparr>rooms := (rooms srv)(r := insert (sock_id sock) (rooms srv r))\<rparr>
            | None \<Rightarrow> srv)
      else srv)"

definition on_conversation_leave :: "socket \<Rightarrow> jsval \<Rightarrow> server \<Rightarrow> server" where
  "on_conversation_leave sock conversationId srv =
     (if truthy conversationId
      then (case js_toString conversationId of
              Some r \<Rightarrow> srv\<lparr>rooms := (rooms srv)(r := rooms srv r - {sock_id sock})\<rparr>
            | None \<Rightarrow> srv)
      else srv)"

text \<open>
  \<^verbatim>\<open>socket.on('disconnect')\<close>: the handler deletes the presence entry; the socket
  server has dropped the socket from every room.
\<close>

definition on_disconnect :: "socket \<Rightarrow> server \<Rightarrow> server" where
  "on_disconnect sock srv =
     srv\<lparr>onlineUsers :=
           (case userId_of sock of
              Some userId \<Rightarrow>
                if userId \<noteq> [] then (onlineUsers srv)(userId := None) else onlineUsers srv
            | None \<Rightarrow> onlineUsers srv),
         rooms := (\<lambda>r. rooms srv r - {sock_id sock})\<rparr>"


text \<open>
  \<^verbatim>\<open>socket.on('message:send', async ({ conversationId, content }) => ...)\<close>. The
  payload is \<open>None\<close> when the client sent \<^verbatim>\<open>undefined\<close> or \<^verbatim>\<open>null\<close>: the
  parameter pattern then throws before the \<^verbatim>\<open>try\<close> block is entered and the promise
  of the handler is rejected (the last component of the result). A payload without a
  field has \<open>JUndefined\<close> there. \<open>on_message_send\<close> is the handler;
  \<open>send_to_conversation\<close> is the part of it after the guard at its head, with the
  trimmed content.
\<close>

definition message_error :: "socket \<Rightarrow> string \<Rightarrow> emit list" where
  "message_error sock msg = [To_socket (sock_id sock) (Message_error msg)]"

definition send_failed :: "socket \<Rightarrow> emit list" where
  "send_failed sock = message_error sock ''Failed to send message''"

definition new_lastMessage :: "jsstring \<Rightarrow> objectid \<Rightarrow> message \<Rightarrow> last_message" where
  "new_lastMessage text sender m =
     \<lparr>lm_content = text, lm_sender = Some sender, lm_createdAt = Some (msg_createdAt m)\<rparr>"

definition room_events ::
  "jsstring \<Rightarrow> populated_message \<Rightarrow> last_message \<Rightarrow> time \<Rightarrow> emit list" where
  "room_events room pm lm updatedAt =
     [To_room room (Message_new room pm), To_room room (Conversation_update room lm updatedAt)]"

definition send_to_conversation ::
  "env \<Rightarrow> socket \<Rightarrow> jsval \<Rightarrow> jsstring \<Rightarrow> server \<Rightarrow> server \<times> emit list" where
  "send_to_conversation e sock conversationId text srv =
     (case castObjectId conversationId of
        None \<Rightarrow> (srv, send_failed sock)
      | Some cid \<Rightarrow>
          if fails e Conversation_findById then (srv, send_failed sock)
          else
            (case Conversation_findById_q (db srv) cid of
               None \<Rightarrow> (srv, message_error sock ''Conversation not found'')
             | Some conversation \<Rightarrow>
                 if \<not> isParticipant conversation (userId_of sock)
                 then (srv, message_error sock ''Not authorized for this conversation'')
                 else
                   (case sock_user sock of
                      None \<Rightarrow> (srv, send_failed sock)
                    | Some u \<Rightarrow>
                        if fails e Message_create then (srv, send_failed sock)
                        else
                          let message = Message_create_q e cid (user_id u) text [user_id u];
                              st1 = insert_message message (db srv);
                              lm = new_lastMessage text (user_id u) message
                          in if fails e Conversation_save then (srv\<lparr>db := st1\<rparr>, send_failed sock)
                             else
                               let st2 = save_lastMessage e conversation lm st1;
                                   saved = assign_and_save e conversation lm
                               in if fails e Populate then (srv\<lparr>db := st2\<rparr>, send_failed sock)
                                  else
                                    (case js_toString conversationId of
                                       None \<Rightarrow> (srv\<lparr>db := st2\<rparr>, send_failed sock)
                                     | Some room \<Rightarrow>
                                         (srv\<lparr>db := st2\<rparr>,
                                          room_events room (populate_sender st2 message)
                                            (lastMessage saved) (conv_updatedAt saved))))))"

definition on_message_send ::
  "env \<Rightarrow> socket \<Rightarrow> (jsval \<times> jsval) option \<Rightarrow> server \<Rightarrow> server \<times> emit list \<times> bool" where
  "on_message_send e sock payload srv =
     (case payload of
        None \<Rightarrow> (srv, [], True)
      | Some (conversationId, content) \<Rightarrow>
          if \<not> truthy conversationId \<or> \<not> truthy content then (srv, [], False)
          else
            (case content of
               JStr s \<Rightarrow>
                 if trim s = [] then (srv, [], False)
                 else
                   (let (srv', es) = send_to_conversation e sock conversationId (trim s) srv
                    in (srv', es, False))
             | _ \<Rightarrow> (srv, send_failed sock, False)))"

section \<open>The REST routes of the chat\<close>

text \<open>
  Every route runs after \<^verbatim>\<open>authenticateToken\<close> has put the caller's User document
  into \<^verbatim>\<open>req.user\<close>. A response is its status and the part of the JSON envelope that
  identifies it; \<^verbatim>\<open>res.json\<close> without \<^verbatim>\<open>res.status\<close> answers 200.
\<close>

datatype body =
    Error_body string
  | Conversation_body conversation
  | Messages_body "populated_message list"
  | Message_body populated_message

record response =
  status :: nat
  body :: body

definition respond :: "nat \<Rightarrow> body \<Rightarrow> response" where
  "respond code b = \<lparr>status = code, body = b\<rparr>"

text \<open>
  \<^verbatim>\<open>router.post('/conversations/:conversationId/messages', ...)\<close>. The path parameter
  is a string; \<open>content\<close> is whatever the JSON body holds. \<open>post_message\<close> is the
  route; \<open>persist_and_broadcast\<close> is the part of it after the test of the content, with
  the trimmed content.
\<close>

definition persist_and_broadcast ::
  "env \<Rightarrow> user \<Rightarrow> jsstring \<Rightarrow> jsstring \<Rightarrow> store \<Rightarrow> store \<times> response \<times> emit list" where
  "persist_and_broadcast e u conversationId text st =
     (let failed = respond 500 (Error_body ''Failed to send message'')
      in case castObjectId (JStr conversationId) of
           None \<Rightarrow> (st, respond 400 (Error_body ''Invalid conversation ID''), [])
         | Some cid \<Rightarrow>
             if fails e Conversation_findById then (st, failed, [])
             else
               (case Conversation_findById_q st cid of
                  None \<Rightarrow> (st, respond 404 (Error_body ''Conversation not found''), [])
                | Some conversation \<Rightarrow>
                    if \<not> isParticipant conversation (Some (oid_toString (user_id u)))
                    then (st, respond 403 (Error_body ''You are not part of this conversation''), [])
                    else if fails e Message_create then (st, failed, [])
                    else
                      let message = Message_create_q e cid (user_id u) text [user_id u];
                          st1 = insert_message message st;
                          lm = new_lastMessage text (user_id u) message
                      in if fails e Conversation_save then (st1, failed, [])
                         else
                           let st2 = save_lastMessage e conversation lm st1;
                               saved = assign_and_save e conversation lm
                           in if fails e Populate then (st2, failed, [])
                              else
                                let pm = populate_sender st2 message
                                in (st2, respond 201 (Message_body pm),
                                    if io_registered e
                                    then room_events conversationId pm
                                           (lastMessage saved) (conv_updatedAt saved)
                                    else [])))"

definition post_message ::
  "env \<Rightarrow> user \<Rightarrow> jsstring \<Rightarrow> jsval \<Rightarrow> store \<Rightarrow> store \<times> response \<times> emit list" where
  "post_message e u conversationId content st =
     (if \<not> truthy content
      then (st, respond 400 (Error_body ''Message content is required''), [])
      else
        (case content of
           JStr s \<Rightarrow>
             if trim s = []
             then (st, respond 400 (Error_body ''Message content is required''), [])
             else persist_and_broadcast e u conversationId (trim s) st
         | _ \<Rightarrow> (st, respond 500 (Error_body ''Failed to send message''), [])))"


text \<open>
  \<^verbatim>\<open>Message.find({ conversation: conversationId }).sort({ createdAt: 1 })\<close>: the
  documents of the conversation, sorted by the database on \<open>createdAt\<close>, the only key
  of the query. The database reads the collection in its natural order, which is the
  order of insertion for a collection that only grows, as this one does, and its sort
  returns documents of equal key in the order in which it read them.
\<close>

definition Message_find_q :: "store \<Rightarrow> objectid \<Rightarrow> message list" where
  "Message_find_q st cid =
     sort_key msg_createdAt (filter (\<lambda>m. msg_conversation m = cid) (messages st))"

text \<open>\<^verbatim>\<open>router.get('/conversations/:conversationId/messages', ...)\<close>\<close>

definition get_messages :: "env \<Rightarrow> user \<Rightarrow> jsstring \<Rightarrow> store \<Rightarrow> response" where
  "get_messages e u conversationId st =
     (let failed = respond 500 (Error_body ''Failed to load messages'')
      in case castObjectId (JStr conversationId) of
           None \<Rightarrow> respond 400 (Error_body ''Invalid conversation ID'')
         | Some cid \<Rightarrow>
             if fails e Conversation_findById then failed
             else
               (case Conversation_findById_q st cid of
                  None \<Rightarrow> respond 404 (Error_body ''Conversation not found'')
                | Some conversation \<Rightarrow>
                    if \<not> isParticipant conversation (Some (oid_toString (user_id u)))
                    then respond 403 (Error_body ''You are not part of this conversation'')
                    else if fails e Message_find \<or> fails e Populate then failed
                    else respond 200
                           (Messages_body (map (populate_sender st) (Message_find_q st cid)))))"

text \<open>
  \<^verbatim>\<open>router.post('/conversations', ...)\<close>, in the two parts that the database calls
  separate: everything up to and including \<^verbatim>\<open>Conversation.findOne\<close>, and what
  follows it. \<open>conversation_lookup\<close> records what the first part found;
  \<open>conversation_finish\<close> acts on it. A request that nothing interrupts is
  \<open>create_conversation\<close>. The two \<^verbatim>\<open>populate\<close> calls chained to the
  \<^verbatim>\<open>findOne\<close> query the database only when a document was found.
\<close>

datatype lookup =
    Respond response
  | Found conversation bool "objectid option"
  | Absent objectid "objectid option"

text \<open>
  \<^verbatim>\<open>Conversation.findOne({ participants: { $all: [req.user._id, participantId] } })\<close>
\<close>

definition Conversation_findOne_q :: "store \<Rightarrow> objectid \<Rightarrow> objectid \<Rightarrow> conversation option" where
  "Conversation_findOne_q st a b =
     find (\<lambda>c. a \<in> set (participants c) \<and> b \<in> set (participants c)) (conversations st)"

text \<open>
  \<^verbatim>\<open>relatedPost\<close>: the id of the post when \<open>postId\<close> names an existing one.
  \<open>None\<close> is the database call throwing.
\<close>

definition related_post :: "env \<Rightarrow> store \<Rightarrow> jsval \<Rightarrow> objectid option option" where
  "related_post e st postId =
     (if truthy postId \<and> isValid postId
      then (if fails e Post_findById then None
            else (case castObjectId postId of
                    None \<Rightarrow> Some None
                  | Some pid \<Rightarrow> Some (if pid \<in> set (posts st) then Some pid else None)))
      else Some None)"

text \<open>\<^verbatim>\<open>conversation.post\<close> after \<^verbatim>\<open>populate('post', ...)\<close> is a document or null.\<close>

definition has_post :: "store \<Rightarrow> conversation \<Rightarrow> bool" where
  "has_post st c \<longleftrightarrow> (case post c of None \<Rightarrow> False | Some pid \<Rightarrow> pid \<in> set (posts st))"

definition conversation_lookup :: "env \<Rightarrow> user \<Rightarrow> jsval \<Rightarrow> jsval \<Rightarrow> store \<Rightarrow> lookup" where
  "conversation_lookup e u participantId postId st =
     (let failed = Respond (respond 500 (Error_body ''Failed to create conversation''))
      in if \<not> truthy participantId \<or> \<not> isValid participantId
         then Respond (respond 400 (Error_body ''Valid participantId is required''))
         else if participantId = JStr (oid_toString (user_id u))
         then Respond (respond 400 (Error_body ''You cannot start a conversation with yourself''))
         else if fails e User_findById then failed
         else
           (case castObjectId participantId of
              None \<Rightarrow> failed
            | Some pid \<Rightarrow>
                (case User_findById_q st pid of
                   None \<Rightarrow> Respond (respond 404 (Error_body ''Artist not found''))
                 | Some participant \<Rightarrow>
                     (case related_post e st postId of
                        None \<Rightarrow> failed
                      | Some relatedPost \<Rightarrow>
                          if fails e Conversation_findOne then failed
                          else
                            (case Conversation_findOne_q st (user_id u) pid of
                               None \<Rightarrow> Absent pid relatedPost
                             | Some conversation \<Rightarrow>
                                 if fails e Populate then failed
                                 else Found conversation (has_post st conversation)
                                        relatedPost)))))"

definition new_conversation :: "env \<Rightarrow> objectid \<Rightarrow> objectid \<Rightarrow> objectid option \<Rightarrow> conversation" where
  "new_conversation e a b relatedPost =
     \<lparr>conv_id = new_id e, participants = [a, b], post = relatedPost,
      lastMessage = \<lparr>lm_content = [], lm_sender = None, lm_createdAt = None\<rparr>,
      conv_createdAt = t_create e, conv_updatedAt = t_create e\<rparr>"

definition save_post :: "env \<Rightarrow> objectid \<Rightarrow> objectid option \<Rightarrow> store \<Rightarrow> store" where
  "save_post e cid relatedPost st =
     st\<lparr>conversations :=
          map (\<lambda>c. if conv_id c = cid
                   then c\<lparr>post := relatedPost, conv_updatedAt := t_save e\<rparr> else c)
              (conversations st)\<rparr>"

definition conversation_finish :: "env \<Rightarrow> user \<Rightarrow> lookup \<Rightarrow> store \<Rightarrow> store \<times> response" where
  "conversation_finish e u found st =
     (let failed = respond 500 (Error_body ''Failed to create conversation'')
      in case found of
           Respond r \<Rightarrow> (st, r)
         | Absent pid relatedPost \<Rightarrow>
             if fails e Conversation_create then (st, failed)
             else
               let conversation = new_conversation e (user_id u) pid relatedPost;
                   st1 = st\<lparr>conversations := conversations st @ [conversation]\<rparr>
               in if fails e Populate then (st1, failed)
                  else (st1, respond 200 (Conversation_body conversation))
         | Found conversation populated relatedPost \<Rightarrow>
             if relatedPost \<noteq> None \<and> \<not> populated
             then (if fails e Conversation_save then (st, failed)
                   else (save_post e (conv_id conversation) relatedPost st,
                         respond 200
                           (Conversation_body
                              (conversation\<lparr>post := relatedPost, conv_updatedAt := t_save e\<rparr>))))
             else (st, respond 200 (Conversation_body conversation)))"

definition create_conversation ::
  "env \<Rightarrow> user \<Rightarrow> jsval \<Rightarrow> jsval \<Rightarrow> store \<Rightarrow> store \<times> response" where
  "create_conversation e u participantId postId st =
     conversation_finish e u (conversation_lookup e u participantId postId st) st"


section \<open>Runs of the server\<close>

text \<open>
  The states the server reaches when every event and request is handled to its end before
  the next one starts. The User and Post collections belong to other routes and are
  arbitrary; the chat collections start empty.
\<close>

inductive reachable :: "server \<Rightarrow> bool" where
  start:
    "conversations st = [] \<Longrightarrow> messages st = [] \<Longrightarrow>
     reachable \<lparr>db = st, onlineUsers = Map.empty, rooms = (\<lambda>r. {})\<rparr>"
| connection: "reachable srv \<Longrightarrow> reachable (fst (on_connection sock srv))"
| join: "reachable srv \<Longrightarrow> reachable (on_conversation_join sock conversationId srv)"
| leave: "reachable srv \<Longrightarrow> reachable (on_conversation_leave sock conversationId srv)"
| send: "reachable srv \<Longrightarrow> reachable (fst (on_message_send e sock payload srv))"
| disconnect: "reachable srv \<Longrightarrow> reachable (on_disconnect sock srv)"
| create:
    "reachable srv \<Longrightarrow>
     reachable (srv\<lparr>db := fst (create_conversation e u participantId postId (db srv))\<rparr>)"
| post:
    "reachable srv \<Longrightarrow>
     reachable (srv\<lparr>db := fst (post_message e u conversationId content (db srv))\<rparr>)"

text \<open>
  Every \<^verbatim>\<open>await\<close> hands control back to the event loop, so a second request may run
  between the \<^verbatim>\<open>findOne\<close> of a creation request and what follows it. The pending
  list holds the creation requests that have looked up and not yet finished.
\<close>

inductive overlapping :: "store \<Rightarrow> (env \<times> user \<times> lookup) list \<Rightarrow> bool" where
  idle: "conversations st = [] \<Longrightarrow> overlapping st []"
| looked_up:
    "overlapping st pending \<Longrightarrow>
     overlapping st ((e, u, conversation_lookup e u participantId postId st) # pending)"
| finished:
    "overlapping st pending \<Longrightarrow> (e, u, found) \<in> set pending \<Longrightarrow>
     overlapping (fst (conversation_finish e u found st)) (remove1 (e, u, found) pending)"

text \<open>The number of conversations whose participants are exactly the pair.\<close>

definition pair_count :: "store \<Rightarrow> objectid \<Rightarrow> objectid \<Rightarrow> nat" where
  "pair_count st a b = length (filter (\<lambda>c. set (participants c) = {a, b}) (conversations st))"

text \<open>The messages of a conversation in the order of their insertion.\<close>

definition history :: "store \<Rightarrow> objectid \<Rightarrow> message list" where
  "history st cid = filter (\<lambda>m. msg_conversation m = cid) (messages st)"

text \<open>A socket send went through: a message was stored and no error was reported.\<close>

fun is_error :: "emit \<Rightarrow> bool" where
  "is_error (To_socket t (Message_error msg)) = True"
| "is_error (To_room r (Message_error msg)) = True"
| "is_error x = False"

definition sent :: "server \<Rightarrow> server \<times> emit list \<times> bool \<Rightarrow> bool" where
  "sent srv res \<longleftrightarrow>
     (case res of (srv', es, rejected) \<Rightarrow>
        messages (db srv') \<noteq> messages (db srv) \<and> \<not> list_ex is_error es)"


text \<open>
  What a send that goes through is expected to write, field by field: the Message
  document, the summary of the conversation, and the conversation document afterwards,
  which keeps its \<open>updatedAt\<close> when the summary it held is the new one.
\<close>

definition sent_message :: "env \<Rightarrow> objectid \<Rightarrow> user \<Rightarrow> jsstring \<Rightarrow> message" where
  "sent_message e cid u text =
     \<lparr>msg_id = new_id e, msg_conversation = cid, msg_sender = user_id u, msg_content = text,
      readBy = [user_id u], msg_createdAt = t_create e\<rparr>"

definition summary_of :: "env \<Rightarrow> user \<Rightarrow> jsstring \<Rightarrow> last_message" where
  "summary_of e u text =
     \<lparr>lm_content = text, lm_sender = Some (user_id u), lm_createdAt = Some (t_create e)\<rparr>"

definition summarised :: "env \<Rightarrow> user \<Rightarrow> jsstring \<Rightarrow> conversation \<Rightarrow> conversation" where
  "summarised e u text c =
     (if lastMessage c = summary_of e u text then c
      else c\<lparr>lastMessage := summary_of e u text, conv_updatedAt := t_save e\<rparr>)"

text \<open>The store after the two writes, and the two events of the broadcast.\<close>

definition after_send :: "env \<Rightarrow> conversation \<Rightarrow> user \<Rightarrow> jsstring \<Rightarrow> store \<Rightarrow> store" where
  "after_send e c u text st =
     save_lastMessage e c (summary_of e u text)
       (insert_message (sent_message e (conv_id c) u text) st)"

definition send_events ::
  "env \<Rightarrow> conversation \<Rightarrow> user \<Rightarrow> jsstring \<Rightarrow> jsstring \<Rightarrow> store \<Rightarrow> emit list" where
  "send_events e c u text room st =
     room_events room (populate_sender (after_send e c u text st) (sent_message e (conv_id c) u text))
       (summary_of e u text) (conv_updatedAt (summarised e u text c))"

text \<open>
  Sends addressed to one conversation by its id string, over either route, one after
  the other and each handled to its end. A REST send went through when it is answered
  201, a socket send when a message was stored and no error was reported.
\<close>

datatype send = Rest_send env user jsval | Socket_send env socket jsval

fun send_one :: "jsstring \<Rightarrow> send \<Rightarrow> server \<Rightarrow> server \<times> bool" where
  "send_one conversationId (Rest_send e u content) srv =
     (case post_message e u conversationId content (db srv) of
        (st', r, es) \<Rightarrow> (srv\<lparr>db := st'\<rparr>, status r = 201))"
| "send_one conversationId (Socket_send e sock content) srv =
     (fst (on_message_send e sock (Some (JStr conversationId, content)) srv),
      sent srv (on_message_send e sock (Some (JStr conversationId, content)) srv))"

fun send_all :: "jsstring \<Rightarrow> send list \<Rightarrow> server \<Rightarrow> server \<times> bool list" where
  "send_all conversationId [] srv = (srv, [])"
| "send_all conversationId (s # ss) srv =
     (case send_one conversationId s srv of
        (srv1, ok) \<Rightarrow>
          (case send_all conversationId ss srv1 of (srv2, oks) \<Rightarrow> (srv2, ok # oks)))"

text \<open>The clock reading at which a send creates its message.\<close>

fun stamp :: "send \<Rightarrow> time" where
  "stamp (Rest_send e u content) = t_create e"
| "stamp (Socket_send e sock content) = t_create e"

text \<open>A field that is missing, falsy, or a string of white space only.\<close>

definition blank :: "jsval \<Rightarrow> bool" where
  "blank v \<longleftrightarrow> \<not> truthy v \<or> (case v of JStr s \<Rightarrow> trim s = [] | _ \<Rightarrow> False)"

text \<open>The Message documents a response carries.\<close>

definition returned_messages :: "response \<Rightarrow> message list" where
  "returned_messages r = (case body r of Messages_body pms \<Rightarrow> map pm_message pms | _ \<Rightarrow> [])"

text \<open>What a send stores for a content: the string without the white space at its ends.\<close>

definition trimmed :: "jsval \<Rightarrow> jsstring" where
  "trimmed v = (case v of JStr s \<Rightarrow> trim s | _ \<Rightarrow> [])"

text \<open>The Message document that a send is expected to store, field by field.\<close>

fun message_of :: "objectid \<Rightarrow> send \<Rightarrow> message option" where
  "message_of cid (Rest_send e u content) =
     Some \<lparr>msg_id = new_id e, msg_conversation = cid, msg_sender = user_id u,
           msg_content = trimmed content, readBy = [user_id u], msg_createdAt = t_create e\<rparr>"
| "message_of cid (Socket_send e sock content) =
     map_option
       (\<lambda>u. \<lparr>msg_id = new_id e, msg_conversation = cid, msg_sender = user_id u,
              msg_content = trimmed content, readBy = [user_id u], msg_createdAt = t_create e\<rparr>)
       (sock_user sock)"

section \<open>Example data\<close>

definition alice :: user where
  "alice = \<lparr>user_id = 1, user_name = ascii ''Alice'', user_email = ascii ''alice@example.org'',
            user_photoURL = []\<rparr>"

definition bob :: user where
  "bob = \<lparr>user_id = 2, user_name = ascii ''Bob'', user_email = ascii ''bob@example.org'',
          user_photoURL = []\<rparr>"

definition carol :: user where
  "carol = \<lparr>user_id = 3, user_name = ascii ''Carol'', user_email = ascii ''carol@example.org'',
            user_photoURL = []\<rparr>"

text \<open>A conversation between Alice and Bob, and a store that holds nothing else.\<close>

definition talk :: conversation where
  "talk = \<lparr>conv_id = 16, participants = [1, 2], post = None,
           lastMessage = \<lparr>lm_content = [], lm_sender = None, lm_createdAt = None\<rparr>,
           conv_createdAt = 500, conv_updatedAt = 500\<rparr>"

definition shop :: store where
  "shop = \<lparr>users = [alice, bob, carol], posts = [], conversations = [talk], messages = []\<rparr>"

definition quiet :: env where
  "quiet = \<lparr>fails = (\<lambda>op. False), new_id = 32, t_create = 1000, t_save = 1001,
            io_registered = True\<rparr>"

definition alice_socket :: socket where
  "alice_socket = \<lparr>sock_id = ascii ''sa'', sock_user = Some alice\<rparr>"

definition bob_socket :: socket where
  "bob_socket = \<lparr>sock_id = ascii ''sb'', sock_user = Some bob\<rparr>"

definition carol_socket :: socket where
  "carol_socket = \<lparr>sock_id = ascii ''sc'', sock_user = Some carol\<rparr>"

text \<open>All three are connected; Alice and Bob have joined the room of their conversation.\<close>

definition lobby :: server where
  "lobby =
     \<lparr>db = shop,
      onlineUsers = [oid_toString 1 \<mapsto> ascii ''sa'', oid_toString 2 \<mapsto> ascii ''sb'',
                     oid_toString 3 \<mapsto> ascii ''sc''],
      rooms = (\<lambda>r. {})(ascii ''sa'' := {ascii ''sa''}, ascii ''sb'' := {ascii ''sb''},
                         ascii ''sc'' := {ascii ''sc''},
                         oid_toString 16 := {ascii ''sa'', ascii ''sb''})\<rparr>"

text \<open>
  A conversation of Alice and Bob whose id has a letter among its hexadecimal digits, a
  store that holds it, and a server on which both have joined its room. The same id
  written in upper case.
\<close>

definition deal :: conversation where
  "deal = \<lparr>conv_id = 10, participants = [1, 2], post = None,
           lastMessage = \<lparr>lm_content = [], lm_sender = None, lm_createdAt = None\<rparr>,
           conv_createdAt = 500, conv_updatedAt = 500\<rparr>"

definition bazaar :: store where
  "bazaar = \<lparr>users = [alice, bob, carol], posts = [], conversations = [deal], messages = []\<rparr>"

definition hall :: server where
  "hall =
     \<lparr>db = bazaar,
      onlineUsers = [oid_toString 1 \<mapsto> ascii ''sa'', oid_toString 2 \<mapsto> ascii ''sb''],
      rooms = (\<lambda>r. {})(ascii ''sa'' := {ascii ''sa''}, ascii ''sb'' := {ascii ''sb''},
                         oid_toString 10 := {ascii ''sa'', ascii ''sb''})\<rparr>"

definition upper_case_id :: jsstring where
  "upper_case_id = ascii ''00000000000000000000000A''"

text \<open>
  A request handled within one reading of the clock, and a second request whose clock
  creates at the reading of the first and saves one later.
\<close>

definition same_tick :: env where
  "same_tick = quiet\<lparr>t_save := 1000\<rparr>"

definition quiet_again :: env where
  "quiet_again = quiet\<lparr>new_id := 33\<rparr>"

text \<open>The same users before anybody has written to anybody.\<close>

definition empty_shop :: store where
  "empty_shop = \<lparr>users = [alice, bob, carol], posts = [], conversations = [], messages = []\<rparr>"

section \<open>Object ids and their strings\<close>

lemma hex_value_digit: "d < 16 \<Longrightarrow> hex_value (hex_digit d) = Some d"
proof -
  assume "d < 16"
  then have "d \<in> {0,1,2,3,4,5,6,7,8,9,10,11,12,13,14,15}"
    unfolding insert_iff empty_iff by arith
  then show ?thesis
    unfolding insert_iff empty_iff
    by (elim disjE) (simp_all add: hex_value_def hex_digit_def)
qed

lemma length_hex_digits: "length (hex_digits k n) = k"
  by (induction k arbitrary: n) auto

lemma hex_parse_append:
  "hex_parse acc (xs @ ys) =
     (case hex_parse acc xs of None \<Rightarrow> None | Some a \<Rightarrow> hex_parse a ys)"
  by (induction xs arbitrary: acc) (auto split: option.splits)

lemma hex_parse_digits: "hex_parse 0 (hex_digits k n) = Some (n mod 16 ^ k)"
proof (induction k arbitrary: n)
  case 0
  then show ?case by simp
next
  case (Suc k)
  have "hex_parse 0 (hex_digits (Suc k) n) = Some ((n div 16) mod 16 ^ k * 16 + n mod 16)"
    by (simp add: hex_parse_append Suc hex_value_digit)
  also have "(n div 16) mod 16 ^ k * 16 + n mod 16 = n mod 16 ^ Suc k"
    by (simp add: mod_mult2_eq mult.commute)
  finally show ?case .
qed

lemma castObjectId_toString: "castObjectId (JStr (oid_toString w)) = Some w"
proof -
  have "unat w < 2 ^ 96" using unsigned_less [of w] by simp
  then have "unat w mod 16 ^ 24 = unat w" by simp
  then show ?thesis
    by (simp add: castObjectId_def oid_toString_def length_hex_digits hex_parse_digits)
qed

lemma oid_toString_inj: "oid_toString a = oid_toString b \<longleftrightarrow> a = b"
  by (metis castObjectId_toString option.inject)

lemma isValid_toString: "isValid (JStr (oid_toString w))"
  by (simp add: isValid_def castObjectId_toString)

lemma oid_toString_nonempty: "oid_toString w \<noteq> []"
proof
  assume "oid_toString w = []"
  then have "length (hex_digits 24 (unat w)) = 0" by (simp add: oid_toString_def)
  then show False by (simp only: length_hex_digits)
qed

lemma length_oid_toString: "length (oid_toString w) = 24"
  by (simp add: oid_toString_def length_hex_digits)

lemmas oid_simps =
  castObjectId_toString oid_toString_inj isValid_toString oid_toString_nonempty
  oid_toString_nonempty [symmetric] length_oid_toString

text \<open>The participant test compares strings; it holds exactly for the members.\<close>

lemma isParticipant_iff:
  "isParticipant c (Some (oid_toString uid)) \<longleftrightarrow> uid \<in> set (participants c)"
  by (auto simp: isParticipant_def list_ex_iff oid_toString_inj)

lemma isParticipant_None: "\<not> isParticipant c None"
  by (simp add: isParticipant_def list_ex_iff)


lemma blank_spaces: "blank (JStr (ascii ''   ''))"
  by (simp add: blank_def trim_def ascii_def is_js_space_def)

section \<open>Joining, leaving, disconnecting\<close>

text \<open>
  Claim C6. For every authenticated connection and every conversation id, a
  \<open>conversation:join\<close> request is accepted and adds the connection to the room of that
  id; the server looks nothing up, so the state after the join is this one whatever the
  store holds, also when the user is no participant of the conversation.
\<close>

theorem join_is_unchecked:
  "on_conversation_join sock (JStr (oid_toString cid)) srv =
     srv\<lparr>rooms := (rooms srv)(oid_toString cid :=
                      insert (sock_id sock) (rooms srv (oid_toString cid)))\<rparr>"
  by (simp add: on_conversation_join_def oid_simps)

text \<open>Carol is no participant of the conversation of Alice and Bob, and joins its room.\<close>

theorem join_is_unchecked_witness:
  "Conversation_findById_q (db lobby) 16 = Some talk
   \<and> \<not> isParticipant talk (userId_of carol_socket)
   \<and> sock_id carol_socket \<in> rooms (on_conversation_join carol_socket (JStr (oid_toString 16)) lobby)
                               (oid_toString 16)
   \<and> db (on_conversation_join carol_socket (JStr (oid_toString 16)) lobby) = db lobby"
  using join_is_unchecked [of carol_socket 16 lobby]
  by (simp add: Conversation_findById_q_def lobby_def shop_def talk_def userId_of_def
      carol_socket_def carol_def isParticipant_iff)

text \<open>
  Claim C7. For every connection, the disconnect transition removes the presence entry of
  the connection's user, so that a later lookup for that user finds no handle, and
  leaves every Conversation and Message record as it was.
\<close>

theorem disconnect_drops_presence:
  assumes "sock_user sock = Some u"
  shows "onlineUsers (on_disconnect sock srv) (oid_toString (user_id u)) = None
         \<and> db (on_disconnect sock srv) = db srv"
  using assms by (simp add: on_disconnect_def userId_of_def oid_simps)

theorem disconnect_drops_presence_witness:
  "onlineUsers lobby (oid_toString 2) = Some (ascii ''sb'')
   \<and> onlineUsers (on_disconnect bob_socket lobby) (oid_toString 2) = None
   \<and> db (on_disconnect bob_socket lobby) = shop"
  using disconnect_drops_presence [of bob_socket bob lobby]
  by (simp add: bob_socket_def bob_def lobby_def oid_simps)

section \<open>Sending over the socket\<close>

text \<open>
  A payload that is an object: when its \<open>conversationId\<close> is missing or falsy, or its
  \<open>content\<close> is missing or blank after trimming, the guard at the head of the
  \<^verbatim>\<open>try\<close> block returns. Nothing is emitted to anybody and the server state is the
  one before.
\<close>

lemma guard_returns_silently:
  assumes "\<not> truthy conversationId \<or> blank content"
  shows "on_message_send e sock (Some (conversationId, content)) srv = (srv, [], False)"
proof (cases content)
  case (JStr s)
  with assms show ?thesis by (auto simp: on_message_send_def blank_def)
qed (use assms in \<open>auto simp: on_message_send_def blank_def\<close>)

lemma guard_returns_silently_on_spaces:
  "on_message_send quiet alice_socket (Some (JStr (oid_toString 16), JStr (ascii ''   ''))) lobby =
     (lobby, [], False)"
  using guard_returns_silently [of "JStr (oid_toString 16)" "JStr (ascii ''   '')" quiet alice_socket lobby]
  by (simp add: blank_spaces)

text \<open>
  Claim C9. A \<open>message:send\<close> event whose \<open>conversationId\<close> is missing or whose
  \<open>content\<close> is missing is to be rejected silently. The handler takes the two fields
  out of its payload in its parameter list, which is evaluated before the \<^verbatim>\<open>try\<close>
  block is entered. An event that arrives with no payload, or with \<^verbatim>\<open>null\<close>, has
  both fields missing; taking them out throws, nothing catches the exception, and the
  handler does not return: its promise is rejected. No event is emitted and the store is
  as before, but the rejection is not a silent one.
\<close>

theorem send_without_payload_throws:
  "on_message_send e sock None srv = (srv, [], True)"
  by (simp add: on_message_send_def)

theorem send_without_payload_throws_witness:
  "on_message_send quiet alice_socket None lobby = (lobby, [], True)
   \<and> on_message_send quiet alice_socket (Some (JUndefined, JUndefined)) lobby = (lobby, [], False)"
  using send_without_payload_throws [of quiet alice_socket lobby]
  by (simp add: on_message_send_def)

section \<open>Sends by a sender outside the conversation\<close>

lemma trim_Nil: "trim [] = []"
  by (simp add: trim_def)

lemma castObjectId_SomeD:
  assumes "castObjectId v = Some cid"
  obtains s where "v = JStr s" and "length s = 24"
  using assms by (cases v) (auto simp: castObjectId_def split: if_splits)

lemma castObjectId_truthy: "castObjectId v = Some cid \<Longrightarrow> truthy v"
  by (erule castObjectId_SomeD) auto

lemma persist_refused:
  assumes "castObjectId (JStr conversationId) = Some cid"
    and "Conversation_findById_q st cid = Some c"
    and "user_id u \<notin> set (participants c)"
  shows "persist_and_broadcast e u conversationId text st =
           (st, if fails e Conversation_findById
                then respond 500 (Error_body ''Failed to send message'')
                else respond 403 (Error_body ''You are not part of this conversation''), [])"
  unfolding persist_and_broadcast_def Let_def
  using assms by (simp add: isParticipant_iff)

lemma post_message_refused:
  assumes "castObjectId (JStr conversationId) = Some cid"
    and "Conversation_findById_q st cid = Some c"
    and "user_id u \<notin> set (participants c)"
  shows "fst (post_message e u conversationId content st) = st
         \<and> snd (snd (post_message e u conversationId content st)) = []
         \<and> (content = JStr s \<and> trim s \<noteq> [] \<and> \<not> fails e Conversation_findById \<longrightarrow>
         fst (snd (post_message e u conversationId content st)) =
           respond 403 (Error_body ''You are not part of this conversation''))"
  by (cases content) (simp_all add: post_message_def persist_refused [OF assms] trim_Nil)

lemma send_to_conversation_refused:
  assumes "castObjectId conversationId = Some cid"
    and "Conversation_findById_q (db srv) cid = Some c"
    and "sock_user sock = Some u"
    and "user_id u \<notin> set (participants c)"
  shows "send_to_conversation e sock conversationId text srv =
           (srv, if fails e Conversation_findById then send_failed sock
                 else message_error sock ''Not authorized for this conversation'')"
  unfolding send_to_conversation_def Let_def
  using assms by (simp add: userId_of_def isParticipant_iff)

lemma on_message_send_refused:
  assumes "castObjectId conversationId = Some cid"
    and "Conversation_findById_q (db srv) cid = Some c"
    and "sock_user sock = Some u"
    and "user_id u \<notin> set (participants c)"
  shows "fst (on_message_send e sock (Some (conversationId, content)) srv) = srv
    \<and> list_all (\<lambda>x. \<exists>msg. x = To_socket (sock_id sock) (Message_error msg))
           (fst (snd (on_message_send e sock (Some (conversationId, content)) srv)))
    \<and> (content = JStr s \<and> trim s \<noteq> [] \<and> \<not> fails e Conversation_findById \<longrightarrow>
         fst (snd (on_message_send e sock (Some (conversationId, content)) srv)) =
           message_error sock ''Not authorized for this conversation'')"
  by (cases content)
     (simp_all add: on_message_send_def send_to_conversation_refused [OF assms]
        send_failed_def message_error_def trim_Nil castObjectId_truthy [OF assms(1)])


lemma trim_hi: "trim (ascii ''hi'') = ascii ''hi''" "ascii ''hi'' \<noteq> []"
  by (simp_all add: trim_def ascii_def is_js_space_def)

lemma trim_spaces: "trim (ascii ''   '') = []" "ascii ''   '' \<noteq> []"
  by (simp_all add: trim_def ascii_def is_js_space_def)

lemma shop_talk: "Conversation_findById_q shop 16 = Some talk"
  by (simp add: Conversation_findById_q_def shop_def talk_def)

text \<open>
  Claim C1. Let the authenticated sender be no participant of the conversation that the
  id of a send operation resolves to. Then the store (for the socket: the whole server
  state) is left as it was, so no Message record is created and no summary is touched,
  the REST route broadcasts nothing and the socket handler emits nothing but
  \<open>message:error\<close> events to the sender. A send reaches the test of the participants
  when its content is a string that is not blank after trimming and the lookup of the
  conversation does not throw; it then fails as NotAParticipant: HTTP 403 on the REST
  route, one \<open>message:error\<close> event to the sender on the socket.
\<close>

theorem non_participant_send_is_refused:
  assumes "castObjectId (JStr conversationId) = Some cid"
    and "Conversation_findById_q st cid = Some c"
    and "user_id u \<notin> set (participants c)"
    and "sock_user sock = Some u"
    and "db srv = st"
  shows "fst (post_message e u conversationId content st) = st
       \<and> snd (snd (post_message e u conversationId content st)) = []
       \<and> fst (on_message_send e sock (Some (JStr conversationId, content)) srv) = srv
       \<and> list_all (\<lambda>x. \<exists>msg. x = To_socket (sock_id sock) (Message_error msg))
           (fst (snd (on_message_send e sock (Some (JStr conversationId, content)) srv)))
       \<and> (content = JStr s \<and> trim s \<noteq> [] \<and> \<not> fails e Conversation_findById \<longrightarrow>
            fst (snd (post_message e u conversationId content st)) =
              respond 403 (Error_body ''You are not part of this conversation'')
            \<and> fst (snd (on_message_send e sock (Some (JStr conversationId, content)) srv)) =
              message_error sock ''Not authorized for this conversation'')"
proof -
  from assms have find: "Conversation_findById_q (db srv) cid = Some c" by simp
  show ?thesis
    using post_message_refused [OF assms(1-3), of e content s]
      on_message_send_refused [OF assms(1) find assms(4) assms(3), of e content s]
    by blast
qed

theorem non_participant_send_is_refused_witness:
  "fst (post_message quiet carol (oid_toString 16) (JStr (ascii ''hi'')) shop) = shop
   \<and> fst (snd (post_message quiet carol (oid_toString 16) (JStr (ascii ''hi'')) shop)) =
       respond 403 (Error_body ''You are not part of this conversation'')
   \<and> snd (snd (post_message quiet carol (oid_toString 16) (JStr (ascii ''hi'')) shop)) = []
   \<and> fst (on_message_send quiet carol_socket
             (Some (JStr (oid_toString 16), JStr (ascii ''hi''))) lobby) = lobby
   \<and> fst (snd (on_message_send quiet carol_socket
             (Some (JStr (oid_toString 16), JStr (ascii ''hi''))) lobby)) =
       [To_socket (ascii ''sc'') (Message_error ''Not authorized for this conversation'')]"
  using non_participant_send_is_refused
    [of "oid_toString 16" 16 shop talk carol carol_socket lobby quiet "JStr (ascii ''hi'')"
        "ascii ''hi''"]
  by (simp add: castObjectId_toString shop_talk talk_def carol_def carol_socket_def lobby_def
      quiet_def trim_hi message_error_def)


section \<open>Sends that go through\<close>

lemma find_map_same_key:
  assumes "\<And>x. key (f x) = key x"
  shows "find (\<lambda>x. key x = k) (map f xs) = map_option f (find (\<lambda>x. key x = k) xs)"
  using assms by (induction xs) auto

lemma findById_conv_id: "Conversation_findById_q st cid = Some c \<Longrightarrow> conv_id c = cid"
  by (auto simp: Conversation_findById_q_def dest: find_Some_iff [THEN iffD1])

lemma findById_after_save:
  "Conversation_findById_q (save_lastMessage e k lm st) cid =
     map_option (\<lambda>c. if conv_id c = conv_id k \<and> lastMessage k \<noteq> lm
                     then c\<lparr>lastMessage := lm, conv_updatedAt := t_save e\<rparr> else c)
       (Conversation_findById_q st cid)"
  unfolding Conversation_findById_q_def save_lastMessage_def
  by (simp add: find_map_same_key [where key = conv_id] option.map_ident)

lemma findById_insert_message [simp]:
  "Conversation_findById_q (insert_message m st) cid = Conversation_findById_q st cid"
  by (simp add: Conversation_findById_q_def insert_message_def)

lemma messages_save [simp]: "messages (save_lastMessage e k lm st) = messages st"
  by (simp add: save_lastMessage_def)

lemma messages_insert [simp]: "messages (insert_message m st) = messages st @ [m]"
  by (simp add: insert_message_def)

lemma users_save [simp]: "users (save_lastMessage e k lm st) = users st"
  by (simp add: save_lastMessage_def)

lemma users_insert [simp]: "users (insert_message m st) = users st"
  by (simp add: insert_message_def)

lemma created_is_sent_message:
  "Message_create_q e cid (user_id u) text [user_id u] = sent_message e cid u text"
  by (simp add: Message_create_q_def sent_message_def)

lemma new_lastMessage_is_summary:
  "new_lastMessage text (user_id u) (sent_message e cid u text) = summary_of e u text"
  by (simp add: new_lastMessage_def sent_message_def summary_of_def)

lemma assign_and_save_is_summarised:
  "assign_and_save e c (summary_of e u text) = summarised e u text c"
  by (simp add: assign_and_save_def summarised_def)

lemma lastMessage_summarised: "lastMessage (summarised e u text c) = summary_of e u text"
  by (simp add: summarised_def)

lemma messages_after_send:
  "messages (after_send e c u text st) = messages st @ [sent_message e (conv_id c) u text]"
  by (simp add: after_send_def)

lemma users_after_send: "users (after_send e c u text st) = users st"
  by (simp add: after_send_def)

lemma findById_after_send:
  assumes "Conversation_findById_q st cid = Some c"
  shows "Conversation_findById_q (after_send e c u text st) cid = Some (summarised e u text c)"
  using assms findById_conv_id [OF assms]
  by (simp add: after_send_def findById_after_save summarised_def)

lemma populate_after_send:
  "populate_sender (after_send e c u text st) m = populate_sender st m"
  by (simp add: populate_sender_def User_findById_q_def users_after_send)

text \<open>What a REST send that is answered 201 has done.\<close>

lemma persist_201D:
  assumes "persist_and_broadcast e u conversationId text st = (st', r, es)"
    and "status r = 201"
  obtains cid c where "castObjectId (JStr conversationId) = Some cid"
    and "Conversation_findById_q st cid = Some c"
    and "user_id u \<in> set (participants c)"
    and "st' = after_send e c u text st"
    and "r = respond 201 (Message_body (populate_sender st' (sent_message e cid u text)))"
    and "es = (if io_registered e then send_events e c u text conversationId st else [])"
proof (cases "castObjectId (JStr conversationId)")
  case None
  with assms show ?thesis by (auto simp: persist_and_broadcast_def respond_def Let_def)
next
  case (Some cid)
  show ?thesis
  proof (cases "Conversation_findById_q st cid")
    case None
    with Some assms show ?thesis
      by (auto simp: persist_and_broadcast_def respond_def Let_def split: if_splits)
  next
    case c: (Some c)
    have id: "conv_id c = cid" using c by (rule findById_conv_id)
    from assms Some c have
      ok: "\<not> fails e Conversation_findById" "isParticipant c (Some (oid_toString (user_id u)))"
          "\<not> fails e Message_create" "\<not> fails e Conversation_save" "\<not> fails e Populate"
      by (auto simp: persist_and_broadcast_def respond_def Let_def split: if_splits)
    from assms Some c ok id show ?thesis
      by (intro that [of cid c])
         (auto simp: persist_and_broadcast_def Let_def isParticipant_iff after_send_def
            send_events_def created_is_sent_message new_lastMessage_is_summary
            assign_and_save_is_summarised lastMessage_summarised)
  qed
qed

lemma post_message_201D:
  assumes "post_message e u conversationId content st = (st', r, es)"
    and "status r = 201"
  obtains s where "content = JStr s" and "trim s \<noteq> []"
    and "persist_and_broadcast e u conversationId (trim s) st = (st', r, es)"
proof (cases content)
  case (JStr s)
  with assms show ?thesis
    by (intro that [of s]) (auto simp: post_message_def respond_def split: if_splits)
qed (use assms in \<open>auto simp: post_message_def respond_def split: if_splits\<close>)

text \<open>What a socket send that went through has done.\<close>

lemma send_to_conversation_sentD:
  assumes "send_to_conversation e sock v text srv = (srv', es)"
    and "messages (db srv') \<noteq> messages (db srv)"
    and "\<not> list_ex is_error es"
  obtains conversationId cid c u where "v = JStr conversationId"
    and "castObjectId (JStr conversationId) = Some cid"
    and "Conversation_findById_q (db srv) cid = Some c"
    and "sock_user sock = Some u"
    and "user_id u \<in> set (participants c)"
    and "srv' = srv\<lparr>db := after_send e c u text (db srv)\<rparr>"
    and "es = send_events e c u text conversationId (db srv)"
proof (cases "castObjectId v")
  case None
  with assms show ?thesis by (auto simp: send_to_conversation_def)
next
  case (Some cid)
  then obtain conversationId where v: "v = JStr conversationId"
    by (rule castObjectId_SomeD)
  show ?thesis
  proof (cases "Conversation_findById_q (db srv) cid")
    case None
    with Some assms show ?thesis
      by (auto simp: send_to_conversation_def split: if_splits)
  next
    case c: (Some c)
    have id: "conv_id c = cid" using c by (rule findById_conv_id)
    show ?thesis
    proof (cases "sock_user sock")
      case None
      with assms Some c show ?thesis
        by (auto simp: send_to_conversation_def userId_of_def isParticipant_None split: if_splits)
    next
      case u: (Some u)
      from assms Some c u have
        ok: "\<not> fails e Conversation_findById" "isParticipant c (Some (oid_toString (user_id u)))"
            "\<not> fails e Message_create" "\<not> fails e Conversation_save" "\<not> fails e Populate"
        by (auto simp: send_to_conversation_def userId_of_def Let_def send_failed_def
              message_error_def split: if_splits)
      from assms Some c u ok id v show ?thesis
        by (intro that [of conversationId cid c u])
           (auto simp: send_to_conversation_def userId_of_def Let_def isParticipant_iff
              after_send_def send_events_def created_is_sent_message new_lastMessage_is_summary
              assign_and_save_is_summarised lastMessage_summarised)
    qed
  qed
qed

lemma on_message_send_sentD:
  assumes "sent srv (on_message_send e sock payload srv)"
  obtains conversationId s cid c u where "payload = Some (JStr conversationId, JStr s)"
    and "trim s \<noteq> []"
    and "castObjectId (JStr conversationId) = Some cid"
    and "Conversation_findById_q (db srv) cid = Some c"
    and "sock_user sock = Some u"
    and "user_id u \<in> set (participants c)"
    and "on_message_send e sock payload srv =
           (srv\<lparr>db := after_send e c u (trim s) (db srv)\<rparr>,
            send_events e c u (trim s) conversationId (db srv), False)"
proof (cases payload)
  case None
  with assms show ?thesis by (simp add: sent_def on_message_send_def)
next
  case (Some p)
  obtain v content where p: "p = (v, content)" by (cases p)
  show ?thesis
  proof (cases content)
    case (JStr s)
    obtain srv' es where r: "send_to_conversation e sock v (trim s) srv = (srv', es)"
      by (cases "send_to_conversation e sock v (trim s) srv")
    from assms Some p JStr r have
      ne: "trim s \<noteq> []" and res: "on_message_send e sock payload srv = (srv', es, False)"
      and ch: "messages (db srv') \<noteq> messages (db srv)" and noerr: "\<not> list_ex is_error es"
      by (auto simp: sent_def on_message_send_def split: if_splits)
    from r ch noerr show ?thesis
    proof (rule send_to_conversation_sentD)
      fix conversationId cid c u
      assume "v = JStr conversationId" "castObjectId (JStr conversationId) = Some cid"
        "Conversation_findById_q (db srv) cid = Some c" "sock_user sock = Some u"
        "user_id u \<in> set (participants c)"
        "srv' = srv\<lparr>db := after_send e c u (trim s) (db srv)\<rparr>"
        "es = send_events e c u (trim s) conversationId (db srv)"
      with Some p JStr ne res show ?thesis
        by (intro that [of conversationId s cid c u]) simp_all
    qed
  qed (use assms Some p in \<open>auto simp: sent_def on_message_send_def send_failed_def message_error_def split: if_splits\<close>)
qed

text \<open>A send that meets no obstacle goes through.\<close>

lemma post_message_ok:
  assumes "content = JStr s" and "trim s \<noteq> []"
    and "castObjectId (JStr conversationId) = Some cid"
    and "Conversation_findById_q st cid = Some c"
    and "user_id u \<in> set (participants c)"
    and "\<not> fails e Conversation_findById" and "\<not> fails e Message_create"
    and "\<not> fails e Conversation_save" and "\<not> fails e Populate"
  shows "post_message e u conversationId content st =
           (after_send e c u (trim s) st,
            respond 201 (Message_body
              (populate_sender (after_send e c u (trim s) st) (sent_message e cid u (trim s)))),
            if io_registered e then send_events e c u (trim s) conversationId st else [])"
proof -
  have id: "conv_id c = cid" using assms(4) by (rule findById_conv_id)
  have "s \<noteq> []" using assms(2) by (auto simp: trim_Nil)
  with assms id show ?thesis
    by (simp add: post_message_def persist_and_broadcast_def Let_def isParticipant_iff
        after_send_def send_events_def created_is_sent_message new_lastMessage_is_summary
        assign_and_save_is_summarised lastMessage_summarised)
qed

lemma on_message_send_ok:
  assumes "trim s \<noteq> []"
    and "castObjectId (JStr conversationId) = Some cid"
    and "Conversation_findById_q (db srv) cid = Some c"
    and "sock_user sock = Some u"
    and "user_id u \<in> set (participants c)"
    and "\<not> fails e Conversation_findById" and "\<not> fails e Message_create"
    and "\<not> fails e Conversation_save" and "\<not> fails e Populate"
  shows "on_message_send e sock (Some (JStr conversationId, JStr s)) srv =
           (srv\<lparr>db := after_send e c u (trim s) (db srv)\<rparr>,
            send_events e c u (trim s) conversationId (db srv), False)"
proof -
  have id: "conv_id c = cid" using assms(3) by (rule findById_conv_id)
  have "s \<noteq> []" using assms(1) by (auto simp: trim_Nil)
  moreover have "conversationId \<noteq> []" using castObjectId_truthy [OF assms(2)] by simp
  ultimately show ?thesis using assms id
    by (simp add: on_message_send_def send_to_conversation_def Let_def isParticipant_iff
        userId_of_def after_send_def send_events_def created_is_sent_message
        new_lastMessage_is_summary assign_and_save_is_summarised lastMessage_summarised)
qed

lemma sent_after_send:
  "sent srv (srv\<lparr>db := after_send e c u text (db srv)\<rparr>, send_events e c u text room (db srv), False)"
  by (simp add: sent_def messages_after_send send_events_def room_events_def)

lemma delivered_send_events:
  "delivered rs (send_events e c u text room st) s =
     (if s \<in> rs room
      then [Message_new room (populate_sender st (sent_message e (conv_id c) u text)),
            Conversation_update room (summary_of e u text) (conv_updatedAt (summarised e u text c))]
      else [])"
  by (simp add: delivered_def send_events_def room_events_def populate_after_send)

text \<open>
  Claim C2, as amended. For every successful send, each connection joined to the room
  that is named by the conversation id of the send, as the send wrote it, receives exactly
  one \<open>message:new\<close> and exactly one \<open>conversation:update\<close> event for it, the latter
  with the summary and the \<open>updatedAt\<close> of the stored conversation, and every other
  connection receives neither. On the REST route the dispatch handle is the one
  \<^verbatim>\<open>app.set('io', io)\<close> registers when the server starts.
\<close>

theorem broadcast_reaches_the_room:
  "(post_message e u conversationId content st = (st', r, es) \<and> status r = 201
      \<and> io_registered e \<longrightarrow>
      (\<exists>cid conv' pm. castObjectId (JStr conversationId) = Some cid
         \<and> Conversation_findById_q st' cid = Some conv'
         \<and> pm_message pm = last (messages st')
         \<and> (\<forall>s. delivered rs es s =
            (if s \<in> rs conversationId
             then [Message_new conversationId pm,
                   Conversation_update conversationId (lastMessage conv') (conv_updatedAt conv')]
             else []))))
   \<and> (sent srv (on_message_send e sock payload srv) \<longrightarrow>
      (\<exists>room content cid conv' pm. payload = Some (JStr room, content)
         \<and> castObjectId (JStr room) = Some cid
         \<and> Conversation_findById_q (db (fst (on_message_send e sock payload srv))) cid = Some conv'
         \<and> pm_message pm = last (messages (db (fst (on_message_send e sock payload srv))))
         \<and> (\<forall>s. delivered (rooms srv) (fst (snd (on_message_send e sock payload srv))) s =
            (if s \<in> rooms srv room
             then [Message_new room pm,
                   Conversation_update room (lastMessage conv') (conv_updatedAt conv')]
             else []))))"
proof (intro conjI impI; (elim conjE)?)
  assume a: "post_message e u conversationId content st = (st', r, es)" "status r = 201"
    and io: "io_registered e"
  from a obtain s where "persist_and_broadcast e u conversationId (trim s) st = (st', r, es)"
    by (rule post_message_201D)
  then show "\<exists>cid conv' pm. castObjectId (JStr conversationId) = Some cid
         \<and> Conversation_findById_q st' cid = Some conv'
         \<and> pm_message pm = last (messages st')
         \<and> (\<forall>s. delivered rs es s =
            (if s \<in> rs conversationId
             then [Message_new conversationId pm,
                   Conversation_update conversationId (lastMessage conv') (conv_updatedAt conv')]
             else []))"
    using \<open>status r = 201\<close>
  proof (rule persist_201D)
    fix cid c
    assume "castObjectId (JStr conversationId) = Some cid"
      and "Conversation_findById_q st cid = Some c"
      and "st' = after_send e c u (trim s) st"
      and "es = (if io_registered e then send_events e c u (trim s) conversationId st else [])"
    with io show ?thesis
      by (intro exI [of _ cid] exI [of _ "summarised e u (trim s) c"]
            exI [of _ "populate_sender st (sent_message e (conv_id c) u (trim s))"])
         (simp add: delivered_send_events messages_after_send populate_sender_def
            findById_after_send lastMessage_summarised)
  qed
next
  assume "sent srv (on_message_send e sock payload srv)"
  then show "\<exists>room content cid conv' pm. payload = Some (JStr room, content)
         \<and> castObjectId (JStr room) = Some cid
         \<and> Conversation_findById_q (db (fst (on_message_send e sock payload srv))) cid = Some conv'
         \<and> pm_message pm = last (messages (db (fst (on_message_send e sock payload srv))))
         \<and> (\<forall>s. delivered (rooms srv) (fst (snd (on_message_send e sock payload srv))) s =
            (if s \<in> rooms srv room
             then [Message_new room pm,
                   Conversation_update room (lastMessage conv') (conv_updatedAt conv')]
             else []))"
  proof (rule on_message_send_sentD)
    fix conversationId s cid c u
    assume "payload = Some (JStr conversationId, JStr s)"
      and "castObjectId (JStr conversationId) = Some cid"
      and "Conversation_findById_q (db srv) cid = Some c"
      and "on_message_send e sock payload srv =
           (srv\<lparr>db := after_send e c u (trim s) (db srv)\<rparr>,
            send_events e c u (trim s) conversationId (db srv), False)"
    then show ?thesis
      by (intro exI [of _ conversationId] exI [of _ "JStr s"] exI [of _ cid]
            exI [of _ "summarised e u (trim s) c"]
            exI [of _ "populate_sender (db srv) (sent_message e (conv_id c) u (trim s))"])
         (simp add: delivered_send_events messages_after_send populate_sender_def
            findById_after_send lastMessage_summarised)
  qed
qed

lemma alice_in_talk: "user_id alice \<in> set (participants talk)"
  by (simp add: alice_def talk_def)

lemma quiet_never_fails: "\<not> fails quiet op"
  by (simp add: quiet_def)

lemma alice_posts_hi:
  "post_message quiet alice (oid_toString 16) (JStr (ascii ''hi'')) shop =
     (after_send quiet talk alice (ascii ''hi'') shop,
      respond 201 (Message_body
        (populate_sender (after_send quiet talk alice (ascii ''hi'') shop)
           (sent_message quiet 16 alice (ascii ''hi'')))),
      send_events quiet talk alice (ascii ''hi'') (oid_toString 16) shop)"
  using post_message_ok [of "JStr (ascii ''hi'')" "ascii ''hi''" "oid_toString 16" 16 shop talk
      alice quiet]
  by (simp add: trim_hi castObjectId_toString shop_talk alice_in_talk quiet_never_fails)
     (simp add: quiet_def)

lemma alice_sends_hi:
  "on_message_send quiet alice_socket (Some (JStr (oid_toString 16), JStr (ascii ''hi''))) lobby =
     (lobby\<lparr>db := after_send quiet talk alice (ascii ''hi'') shop\<rparr>,
      send_events quiet talk alice (ascii ''hi'') (oid_toString 16) shop, False)"
proof -
  have "db lobby = shop" "sock_user alice_socket = Some alice"
    by (simp_all add: lobby_def alice_socket_def)
  then show ?thesis
    using on_message_send_ok [of "ascii ''hi''" "oid_toString 16" 16 lobby talk alice_socket
        alice quiet]
    by (simp add: trim_hi castObjectId_toString shop_talk alice_in_talk quiet_never_fails)
qed

lemma lobby_room:
  "rooms lobby (oid_toString 16) = {ascii ''sa'', ascii ''sb''}"
  "ascii ''sc'' \<notin> {ascii ''sa'', ascii ''sb''}"
  by (simp_all add: lobby_def ascii_def)

lemma talk_after_hi:
  "summarised quiet alice (ascii ''hi'') talk =
     talk\<lparr>lastMessage := \<lparr>lm_content = ascii ''hi'', lm_sender = Some 1, lm_createdAt = Some 1000\<rparr>,
          conv_updatedAt := 1001\<rparr>"
  by (simp add: summarised_def summary_of_def talk_def quiet_def alice_def)

theorem broadcast_reaches_the_room_witness:
  "(\<exists>pm lm. delivered (rooms lobby)
       (snd (snd (post_message quiet alice (oid_toString 16) (JStr (ascii ''hi'')) shop)))
       (ascii ''sb'') =
       [Message_new (oid_toString 16) pm, Conversation_update (oid_toString 16) lm 1001])
   \<and> delivered (rooms lobby)
       (snd (snd (post_message quiet alice (oid_toString 16) (JStr (ascii ''hi'')) shop)))
       (ascii ''sc'') = []
   \<and> (\<exists>pm lm. delivered (rooms lobby)
       (fst (snd (on_message_send quiet alice_socket
          (Some (JStr (oid_toString 16), JStr (ascii ''hi''))) lobby)))
       (ascii ''sb'') =
       [Message_new (oid_toString 16) pm, Conversation_update (oid_toString 16) lm 1001])
   \<and> delivered (rooms lobby)
       (fst (snd (on_message_send quiet alice_socket
          (Some (JStr (oid_toString 16), JStr (ascii ''hi''))) lobby)))
       (ascii ''sc'') = []"
proof -
  let ?post = "post_message quiet alice (oid_toString 16) (JStr (ascii ''hi'')) shop"
  let ?payload = "Some (JStr (oid_toString 16), JStr (ascii ''hi''))"
  let ?send = "on_message_send quiet alice_socket ?payload lobby"
  have post: "?post = (fst ?post, fst (snd ?post), snd (snd ?post))" by simp
  have ok: "status (fst (snd ?post)) = 201" by (simp add: alice_posts_hi respond_def)
  have io: "io_registered quiet" by (simp add: quiet_def)
  have db: "db lobby = shop" by (simp add: lobby_def)
  have sent: "sent lobby ?send"
    unfolding alice_sends_hi using sent_after_send [of lobby quiet talk alice] db by simp
  have after: "Conversation_findById_q (after_send quiet talk alice (ascii ''hi'') shop) 16 =
      Some (summarised quiet alice (ascii ''hi'') talk)"
    by (rule findById_after_send [OF shop_talk])
  have t: "conv_updatedAt (summarised quiet alice (ascii ''hi'') talk) = 1001"
    by (simp add: talk_after_hi)
  note inst = broadcast_reaches_the_room
    [of quiet alice "oid_toString 16" "JStr (ascii ''hi'')" shop "fst ?post" "fst (snd ?post)"
        "snd (snd ?post)" "rooms lobby" lobby alice_socket ?payload]
  from inst post ok io obtain cid conv' pm where
    "castObjectId (JStr (oid_toString 16)) = Some cid"
    and "Conversation_findById_q (fst ?post) cid = Some conv'"
    and rest: "\<And>s. delivered (rooms lobby) (snd (snd ?post)) s =
      (if s \<in> rooms lobby (oid_toString 16)
       then [Message_new (oid_toString 16) pm,
             Conversation_update (oid_toString 16) (lastMessage conv') (conv_updatedAt conv')]
       else [])"
    by blast
  then have t1: "conv_updatedAt conv' = 1001"
    using t by (auto simp: castObjectId_toString alice_posts_hi after)
  from inst sent obtain room content cid' conv'' pm' where
    "?payload = Some (JStr room, content)"
    and "castObjectId (JStr room) = Some cid'"
    and "Conversation_findById_q (db (fst ?send)) cid' = Some conv''"
    and sock: "\<And>s. delivered (rooms lobby) (fst (snd ?send)) s =
      (if s \<in> rooms lobby room
       then [Message_new room pm',
             Conversation_update room (lastMessage conv'') (conv_updatedAt conv'')]
       else [])"
    by blast
  then have room: "room = oid_toString 16" and t2: "conv_updatedAt conv'' = 1001"
    using t by (auto simp: castObjectId_toString alice_sends_hi after)
  show ?thesis
    using rest [of "ascii ''sb''"] rest [of "ascii ''sc''"]
      sock [of "ascii ''sb''"] sock [of "ascii ''sc''"]
    unfolding room t1 t2 lobby_room(1)
    using lobby_room(2) by simp
qed

lemma deal_id: "oid_toString 10 = ascii ''00000000000000000000000a''"
  unfolding ascii_def by code_simp

lemma upper_case_cast: "castObjectId (JStr upper_case_id) = Some 10"
  unfolding upper_case_id_def ascii_def by code_simp

lemma hall_rooms:
  "rooms hall upper_case_id = {}" "ascii ''sb'' \<in> rooms hall (oid_toString 10)"
  by (simp_all add: hall_def deal_id upper_case_id_def ascii_def)

lemma bazaar_deal: "Conversation_findById_q bazaar 10 = Some deal"
  by (simp add: Conversation_findById_q_def bazaar_def deal_def)

lemma alice_in_deal: "user_id alice \<in> set (participants deal)"
  by (simp add: alice_def deal_def)

text \<open>
  The claim as first stated fails. Alice and Bob have joined the room of their
  conversation, named by its id as the server writes it. Alice sends with the same id in
  upper case: the id resolves to the conversation, the send goes through on either route,
  and Bob receives nothing.
\<close>

theorem upper_case_send_misses_the_room:
  "castObjectId (JStr upper_case_id) = Some (conv_id deal)
   \<and> Conversation_findById_q (db hall) (conv_id deal) = Some deal
   \<and> ascii ''sb'' \<in> rooms hall (oid_toString (conv_id deal))
   \<and> io_registered quiet
   \<and> status (fst (snd (post_message quiet alice upper_case_id (JStr (ascii ''hi'')) (db hall)))) = 201
   \<and> delivered (rooms hall)
       (snd (snd (post_message quiet alice upper_case_id (JStr (ascii ''hi'')) (db hall))))
       (ascii ''sb'') = []
   \<and> sent hall (on_message_send quiet alice_socket
                  (Some (JStr upper_case_id, JStr (ascii ''hi''))) hall)
   \<and> delivered (rooms hall)
       (fst (snd (on_message_send quiet alice_socket
                    (Some (JStr upper_case_id, JStr (ascii ''hi''))) hall)))
       (ascii ''sb'') = []"
proof -
  have db: "db hall = bazaar" and u: "sock_user alice_socket = Some alice"
    and id: "conv_id deal = 10" and io: "io_registered quiet"
    by (simp_all add: hall_def alice_socket_def deal_def quiet_def)
  have post: "post_message quiet alice upper_case_id (JStr (ascii ''hi'')) bazaar =
      (after_send quiet deal alice (ascii ''hi'') bazaar,
       respond 201 (Message_body
         (populate_sender (after_send quiet deal alice (ascii ''hi'') bazaar)
            (sent_message quiet 10 alice (ascii ''hi'')))),
       send_events quiet deal alice (ascii ''hi'') upper_case_id bazaar)"
    using post_message_ok [of "JStr (ascii ''hi'')" "ascii ''hi''" upper_case_id 10 bazaar deal
        alice quiet]
    by (simp add: trim_hi upper_case_cast bazaar_deal alice_in_deal quiet_never_fails io)
  have send: "on_message_send quiet alice_socket (Some (JStr upper_case_id, JStr (ascii ''hi''))) hall =
      (hall\<lparr>db := after_send quiet deal alice (ascii ''hi'') bazaar\<rparr>,
       send_events quiet deal alice (ascii ''hi'') upper_case_id bazaar, False)"
    using on_message_send_ok [of "ascii ''hi''" upper_case_id 10 hall deal alice_socket alice quiet]
    by (simp add: trim_hi upper_case_cast bazaar_deal alice_in_deal quiet_never_fails db u)
  have went: "sent hall (on_message_send quiet alice_socket
                  (Some (JStr upper_case_id, JStr (ascii ''hi''))) hall)"
    unfolding send using sent_after_send [of hall quiet deal alice] db by simp
  show ?thesis
    using went
    by (simp add: db id upper_case_cast bazaar_deal hall_rooms io post send
        delivered_send_events respond_def)
qed

text \<open>
  Claim C10. A valid REST send to an existing conversation by a participant, with no
  dispatch handle registered on the application: the message is persisted with the
  trimmed content, the sender and the clock reading of its creation; the summary of the
  conversation holds that content, sender and reading; the answer is 201 with the created
  message and its sender expanded; and nothing is broadcast. Nothing else in the store
  changes; the conversation's \<open>updatedAt\<close> is the clock reading of the save, or its
  old value when the summary it held was already the new one.
\<close>

theorem post_without_io_still_persists:
  assumes "content = JStr s" and "trim s \<noteq> []"
    and "castObjectId (JStr conversationId) = Some cid"
    and "Conversation_findById_q st cid = Some c"
    and "user_id u \<in> set (participants c)"
    and "\<forall>op. \<not> fails e op"
    and "\<not> io_registered e"
    and "m = \<lparr>msg_id = new_id e, msg_conversation = cid, msg_sender = user_id u,
               msg_content = trim s, readBy = [user_id u], msg_createdAt = t_create e\<rparr>"
    and "lm = \<lparr>lm_content = trim s, lm_sender = Some (user_id u),
                lm_createdAt = Some (t_create e)\<rparr>"
  shows "\<exists>st'. post_message e u conversationId content st =
                 (st', respond 201 (Message_body
                         \<lparr>pm_message = m, pm_sender = User_findById_q st (user_id u)\<rparr>), [])
           \<and> messages st' = messages st @ [m]
           \<and> Conversation_findById_q st' cid =
               Some (if lastMessage c = lm then c
                     else c\<lparr>lastMessage := lm, conv_updatedAt := t_save e\<rparr>)
           \<and> users st' = users st \<and> posts st' = posts st
           \<and> map conv_id (conversations st') = map conv_id (conversations st)"
proof -
  have id: "conv_id c = cid" using assms(4) by (rule findById_conv_id)
  have m: "sent_message e cid u (trim s) = m" and lm: "summary_of e u (trim s) = lm"
    and ms: "msg_sender m = user_id u"
    using assms(8,9) by (simp_all add: sent_message_def summary_of_def)
  have "posts (after_send e c u (trim s) st) = posts st"
    and "map conv_id (conversations (after_send e c u (trim s) st)) = map conv_id (conversations st)"
    by (simp_all add: after_send_def save_lastMessage_def insert_message_def comp_def)
  then show ?thesis
    using assms(1-7) post_message_ok [of content s conversationId cid st c u e] id m lm ms
      findById_after_send [OF assms(4), of e u "trim s"]
    by (intro exI [of _ "after_send e c u (trim s) st"])
       (simp add: messages_after_send users_after_send populate_sender_def User_findById_q_def
          summarised_def)
qed

lemma trim_padded_hi: "trim (ascii '' hi '') = ascii ''hi''" "ascii ''hi'' \<noteq> ascii '' hi ''"
  by (simp_all add: trim_def ascii_def is_js_space_def)

theorem post_without_io_still_persists_witness:
  "\<exists>st'. post_message (quiet\<lparr>io_registered := False\<rparr>) alice (oid_toString 16)
            (JStr (ascii '' hi '')) shop =
           (st', respond 201 (Message_body
              \<lparr>pm_message = \<lparr>msg_id = 32, msg_conversation = 16, msg_sender = 1,
                              msg_content = ascii ''hi'', readBy = [1], msg_createdAt = 1000\<rparr>,
               pm_sender = Some alice\<rparr>), [])
     \<and> messages st' = [\<lparr>msg_id = 32, msg_conversation = 16, msg_sender = 1,
                         msg_content = ascii ''hi'', readBy = [1], msg_createdAt = 1000\<rparr>]
     \<and> Conversation_findById_q st' 16 =
         Some (talk\<lparr>lastMessage := \<lparr>lm_content = ascii ''hi'', lm_sender = Some 1,
                                    lm_createdAt = Some 1000\<rparr>,
                    conv_updatedAt := 1001\<rparr>)"
proof -
  let ?e = "quiet\<lparr>io_registered := False\<rparr>"
  have e: "\<forall>op. \<not> fails ?e op" "\<not> io_registered ?e" "t_save ?e = 1001" "t_create ?e = 1000"
    "new_id ?e = 32"
    by (simp_all add: quiet_def)
  have a: "user_id alice = 1" "User_findById_q shop 1 = Some alice" "messages shop = []"
    "lastMessage talk \<noteq> \<lparr>lm_content = ascii ''hi'', lm_sender = Some 1, lm_createdAt = Some 1000\<rparr>"
    "1 \<in> set (participants talk)"
    by (simp_all add: alice_def User_findById_q_def shop_def talk_def)
  show ?thesis
    using post_without_io_still_persists
      [of "JStr (ascii '' hi '')" "ascii '' hi ''" "oid_toString 16" 16 shop talk alice ?e,
       OF refl _ _ _ _ _ _ refl refl] e a
    by (simp add: trim_padded_hi trim_hi castObjectId_toString shop_talk) blast
qed

text \<open>
  Claim C3, as amended. After every successful send, over the socket or the REST route,
  with input content \<open>c\<close>, the \<open>lastMessage.content\<close> of the conversation is \<open>c\<close>
  with the white space at both ends removed. When the summary that the conversation held
  differs from the new one in content, sender or creation time, the conversation is saved
  and its \<open>updatedAt\<close> is the clock reading of the save, later than the previous value
  whenever that reading is; when the conversation already held the new summary it is not
  written and its \<open>updatedAt\<close> stays.
\<close>

theorem send_updates_summary:
  "(post_message e u conversationId (JStr c) st = (st', r, es) \<and> status r = 201 \<longrightarrow>
      (\<exists>cid conv conv'.
         castObjectId (JStr conversationId) = Some cid
         \<and> Conversation_findById_q st cid = Some conv
         \<and> Conversation_findById_q st' cid = Some conv'
         \<and> lastMessage conv' = \<lparr>lm_content = trim c, lm_sender = Some (user_id u),
                                  lm_createdAt = Some (t_create e)\<rparr>
         \<and> conv_updatedAt conv' =
             (if lastMessage conv = lastMessage conv' then conv_updatedAt conv else t_save e)
         \<and> (lastMessage conv \<noteq> lastMessage conv' \<and> conv_updatedAt conv < t_save e \<longrightarrow>
              conv_updatedAt conv < conv_updatedAt conv')))
   \<and> (sent srv (on_message_send e sock (Some (v, JStr c)) srv) \<longrightarrow>
      (\<exists>cid conv conv' sender.
         castObjectId v = Some cid
         \<and> sock_user sock = Some sender
         \<and> Conversation_findById_q (db srv) cid = Some conv
         \<and> Conversation_findById_q (db (fst (on_message_send e sock (Some (v, JStr c)) srv))) cid
             = Some conv'
         \<and> lastMessage conv' = \<lparr>lm_content = trim c, lm_sender = Some (user_id sender),
                                  lm_createdAt = Some (t_create e)\<rparr>
         \<and> conv_updatedAt conv' =
             (if lastMessage conv = lastMessage conv' then conv_updatedAt conv else t_save e)
         \<and> (lastMessage conv \<noteq> lastMessage conv' \<and> conv_updatedAt conv < t_save e \<longrightarrow>
              conv_updatedAt conv < conv_updatedAt conv')))"
proof (intro conjI impI; (elim conjE)?)
  assume a: "post_message e u conversationId (JStr c) st = (st', r, es)" "status r = 201"
  from a obtain s where "JStr c = JStr s"
    and "persist_and_broadcast e u conversationId (trim s) st = (st', r, es)"
    by (rule post_message_201D)
  then have "persist_and_broadcast e u conversationId (trim c) st = (st', r, es)" by simp
  then show "\<exists>cid conv conv'.
         castObjectId (JStr conversationId) = Some cid
         \<and> Conversation_findById_q st cid = Some conv
         \<and> Conversation_findById_q st' cid = Some conv'
         \<and> lastMessage conv' = \<lparr>lm_content = trim c, lm_sender = Some (user_id u),
                                  lm_createdAt = Some (t_create e)\<rparr>
         \<and> conv_updatedAt conv' =
             (if lastMessage conv = lastMessage conv' then conv_updatedAt conv else t_save e)
         \<and> (lastMessage conv \<noteq> lastMessage conv' \<and> conv_updatedAt conv < t_save e \<longrightarrow>
              conv_updatedAt conv < conv_updatedAt conv')"
    using a(2)
  proof (rule persist_201D)
    fix cid conv
    assume "castObjectId (JStr conversationId) = Some cid"
      and "Conversation_findById_q st cid = Some conv"
      and "st' = after_send e conv u (trim c) st"
    then show ?thesis
      by (intro exI [of _ cid] exI [of _ conv] exI [of _ "summarised e u (trim c) conv"])
         (simp add: findById_after_send summarised_def summary_of_def)
  qed
next
  assume "sent srv (on_message_send e sock (Some (v, JStr c)) srv)"
  then show "\<exists>cid conv conv' sender.
         castObjectId v = Some cid
         \<and> sock_user sock = Some sender
         \<and> Conversation_findById_q (db srv) cid = Some conv
         \<and> Conversation_findById_q (db (fst (on_message_send e sock (Some (v, JStr c)) srv))) cid
             = Some conv'
         \<and> lastMessage conv' = \<lparr>lm_content = trim c, lm_sender = Some (user_id sender),
                                  lm_createdAt = Some (t_create e)\<rparr>
         \<and> conv_updatedAt conv' =
             (if lastMessage conv = lastMessage conv' then conv_updatedAt conv else t_save e)
         \<and> (lastMessage conv \<noteq> lastMessage conv' \<and> conv_updatedAt conv < t_save e \<longrightarrow>
              conv_updatedAt conv < conv_updatedAt conv')"
  proof (rule on_message_send_sentD)
    fix conversationId s cid conv u
    assume "Some (v, JStr c) = Some (JStr conversationId, JStr s)"
      and "castObjectId (JStr conversationId) = Some cid"
      and "Conversation_findById_q (db srv) cid = Some conv"
      and "sock_user sock = Some u"
      and "on_message_send e sock (Some (v, JStr c)) srv =
           (srv\<lparr>db := after_send e conv u (trim s) (db srv)\<rparr>,
            send_events e conv u (trim s) conversationId (db srv), False)"
    then show ?thesis
      by (intro exI [of _ cid] exI [of _ conv] exI [of _ "summarised e u (trim c) conv"]
            exI [of _ u])
         (simp add: findById_after_send summarised_def summary_of_def)
  qed
qed

lemma alice_posts_to_talk:
  assumes "\<forall>op. \<not> fails e op" and "Conversation_findById_q st 16 = Some c"
    and "user_id alice \<in> set (participants c)" and "trim s = ascii ''hi''"
  shows "post_message e alice (oid_toString 16) (JStr s) st =
     (after_send e c alice (ascii ''hi'') st,
      respond 201 (Message_body
        (populate_sender (after_send e c alice (ascii ''hi'') st)
           (sent_message e 16 alice (ascii ''hi'')))),
      if io_registered e then send_events e c alice (ascii ''hi'') (oid_toString 16) st else [])"
  using post_message_ok [of "JStr s" s "oid_toString 16" 16 st c alice e] assms
  by (simp add: trim_hi castObjectId_toString)

lemma alice_sends_padded_hi:
  "on_message_send quiet alice_socket (Some (JStr (oid_toString 16), JStr (ascii '' hi ''))) lobby =
     (lobby\<lparr>db := after_send quiet talk alice (ascii ''hi'') shop\<rparr>,
      send_events quiet talk alice (ascii ''hi'') (oid_toString 16) shop, False)"
proof -
  have "db lobby = shop" "sock_user alice_socket = Some alice"
    by (simp_all add: lobby_def alice_socket_def)
  then show ?thesis
    using on_message_send_ok [of "ascii '' hi ''" "oid_toString 16" 16 lobby talk alice_socket
        alice quiet]
    by (simp add: trim_padded_hi trim_hi castObjectId_toString shop_talk alice_in_talk
        quiet_never_fails)
qed

theorem send_updates_summary_witness:
  "(\<exists>conv'. Conversation_findById_q
       (fst (post_message quiet alice (oid_toString 16) (JStr (ascii '' hi '')) shop)) 16 = Some conv'
     \<and> lm_content (lastMessage conv') = ascii ''hi''
     \<and> conv_updatedAt conv' = 1001)
   \<and> (\<exists>conv'. Conversation_findById_q
       (db (fst (on_message_send quiet alice_socket
                   (Some (JStr (oid_toString 16), JStr (ascii '' hi ''))) lobby))) 16 = Some conv'
     \<and> lm_content (lastMessage conv') = ascii ''hi''
     \<and> conv_updatedAt conv' = 1001)"
proof -
  let ?post = "post_message quiet alice (oid_toString 16) (JStr (ascii '' hi '')) shop"
  let ?payload = "Some (JStr (oid_toString 16), JStr (ascii '' hi ''))"
  let ?send = "on_message_send quiet alice_socket ?payload lobby"
  have q: "\<forall>op. \<not> fails quiet op" by (simp add: quiet_def)
  have posted: "?post =
     (after_send quiet talk alice (ascii ''hi'') shop,
      respond 201 (Message_body
        (populate_sender (after_send quiet talk alice (ascii ''hi'') shop)
           (sent_message quiet 16 alice (ascii ''hi'')))),
      if io_registered quiet
      then send_events quiet talk alice (ascii ''hi'') (oid_toString 16) shop else [])"
    by (rule alice_posts_to_talk [OF q shop_talk alice_in_talk trim_padded_hi(1)])
  have post: "?post = (fst ?post, fst (snd ?post), snd (snd ?post))" by simp
  have ok: "status (fst (snd ?post)) = 201"
    by (simp add: posted respond_def)
  have db: "db lobby = shop" by (simp add: lobby_def)
  have went: "sent lobby ?send"
    unfolding alice_sends_padded_hi using sent_after_send [of lobby quiet talk alice] db by simp
  have t: "t_save quiet = 1001" "t_create quiet = 1000" "lastMessage talk =
      \<lparr>lm_content = [], lm_sender = None, lm_createdAt = None\<rparr>"
    "ascii ''hi'' \<noteq> []"
    by (simp_all add: quiet_def talk_def trim_hi)
  note inst = send_updates_summary
    [of quiet alice "oid_toString 16" "ascii '' hi ''" shop "fst ?post" "fst (snd ?post)"
        "snd (snd ?post)" lobby alice_socket "JStr (oid_toString 16)"]
  from inst post ok
  obtain cid conv conv' where "castObjectId (JStr (oid_toString 16)) = Some cid"
    and "Conversation_findById_q shop cid = Some conv"
    and "Conversation_findById_q (fst ?post) cid = Some conv'"
    and "lastMessage conv' = \<lparr>lm_content = trim (ascii '' hi ''), lm_sender = Some (user_id alice),
                                lm_createdAt = Some (t_create quiet)\<rparr>"
    and "conv_updatedAt conv' =
           (if lastMessage conv = lastMessage conv' then conv_updatedAt conv else t_save quiet)"
    by blast
  then have rest: "\<exists>conv'. Conversation_findById_q (fst ?post) 16 = Some conv'
     \<and> lm_content (lastMessage conv') = ascii ''hi'' \<and> conv_updatedAt conv' = 1001"
    using t by (intro exI [of _ conv']) (auto simp: castObjectId_toString trim_padded_hi shop_talk)
  from inst [THEN conjunct2, rule_format, OF went]
  obtain cid conv conv' sender where "castObjectId (JStr (oid_toString 16)) = Some cid"
    and "sock_user alice_socket = Some sender"
    and "Conversation_findById_q (db lobby) cid = Some conv"
    and "Conversation_findById_q (db (fst ?send)) cid = Some conv'"
    and "lastMessage conv' = \<lparr>lm_content = trim (ascii '' hi ''), lm_sender = Some (user_id sender),
                                lm_createdAt = Some (t_create quiet)\<rparr>"
    and "conv_updatedAt conv' =
           (if lastMessage conv = lastMessage conv' then conv_updatedAt conv else t_save quiet)"
    by blast
  then have "\<exists>conv'. Conversation_findById_q (db (fst ?send)) 16 = Some conv'
     \<and> lm_content (lastMessage conv') = ascii ''hi'' \<and> conv_updatedAt conv' = 1001"
    using t db
    by (intro exI [of _ conv']) (auto simp: castObjectId_toString trim_padded_hi shop_talk)
  with rest show ?thesis by blast
qed

text \<open>
  The claim as first stated fails. Alice posts \<open>"hi"\<close>, and the request is handled
  within one reading of the clock. She posts \<open>" hi "\<close>; the message is created at the
  same reading and the save comes one reading later. The second send succeeds; the
  summary holds \<open>"hi"\<close>, which is not the content sent, and \<open>updatedAt\<close> is what it
  was after the first send, though the clock has advanced.
\<close>

theorem summary_is_trimmed_and_kept:
  "status (fst (snd (post_message same_tick alice (oid_toString 16) (JStr (ascii ''hi'')) shop)))
     = 201
   \<and> map_option conv_updatedAt
        (Conversation_findById_q
           (fst (post_message same_tick alice (oid_toString 16) (JStr (ascii ''hi'')) shop)) 16)
      = Some 1000
   \<and> status (fst (snd (post_message quiet_again alice (oid_toString 16) (JStr (ascii '' hi ''))
        (fst (post_message same_tick alice (oid_toString 16) (JStr (ascii ''hi'')) shop))))) = 201
   \<and> map_option (\<lambda>c. (lm_content (lastMessage c), conv_updatedAt c))
        (Conversation_findById_q
           (fst (post_message quiet_again alice (oid_toString 16) (JStr (ascii '' hi ''))
              (fst (post_message same_tick alice (oid_toString 16) (JStr (ascii ''hi'')) shop))))
           16)
      = Some (ascii ''hi'', 1000)
   \<and> ascii ''hi'' \<noteq> ascii '' hi ''
   \<and> t_save quiet_again = 1001"
proof -
  have q: "\<forall>op. \<not> fails same_tick op" "\<forall>op. \<not> fails quiet_again op"
    by (simp_all add: quiet_def same_tick_def quiet_again_def)
  let ?c1 = "summarised same_tick alice (ascii ''hi'') talk"
  let ?st1 = "after_send same_tick talk alice (ascii ''hi'') shop"
  have c1: "?c1 = talk\<lparr>lastMessage := \<lparr>lm_content = ascii ''hi'', lm_sender = Some 1,
                                          lm_createdAt = Some 1000\<rparr>,
                         conv_updatedAt := 1000\<rparr>"
    by (simp add: summarised_def summary_of_def talk_def quiet_def same_tick_def alice_def)
  have find1: "Conversation_findById_q ?st1 16 = Some ?c1"
    by (rule findById_after_send [OF shop_talk])
  have in1: "user_id alice \<in> set (participants ?c1)"
    by (simp add: c1 alice_in_talk)
  have c2: "summarised quiet_again alice (ascii ''hi'') ?c1 = ?c1"
    unfolding c1 by (simp add: summarised_def summary_of_def quiet_again_def quiet_def alice_def)
  have first: "post_message same_tick alice (oid_toString 16) (JStr (ascii ''hi'')) shop =
      (?st1, respond 201 (Message_body
          (populate_sender ?st1 (sent_message same_tick 16 alice (ascii ''hi'')))),
       if io_registered same_tick
       then send_events same_tick talk alice (ascii ''hi'') (oid_toString 16) shop else [])"
    by (rule alice_posts_to_talk [OF q(1) shop_talk alice_in_talk trim_hi(1)])
  have second: "post_message quiet_again alice (oid_toString 16) (JStr (ascii '' hi '')) ?st1 =
      (after_send quiet_again ?c1 alice (ascii ''hi'') ?st1,
       respond 201 (Message_body
          (populate_sender (after_send quiet_again ?c1 alice (ascii ''hi'') ?st1)
             (sent_message quiet_again 16 alice (ascii ''hi'')))),
       if io_registered quiet_again
       then send_events quiet_again ?c1 alice (ascii ''hi'') (oid_toString 16) ?st1 else [])"
    by (rule alice_posts_to_talk [OF q(2) find1 in1 trim_padded_hi(1)])
  have find2: "Conversation_findById_q (after_send quiet_again ?c1 alice (ascii ''hi'') ?st1) 16 =
      Some ?c1"
    using findById_after_send [OF find1, of quiet_again alice "ascii ''hi''"] c2 by simp
  have t: "t_save quiet_again = 1001" by (simp add: quiet_again_def quiet_def)
  show ?thesis
    unfolding first second fst_conv snd_conv find1 find2
    by (simp add: respond_def c1 trim_padded_hi t)
qed

section \<open>Reading the history\<close>

lemma returned_messages_respond [simp]:
  "returned_messages (respond code (Messages_body (map (populate_sender st) ms))) = ms"
  by (simp add: returned_messages_def respond_def populate_sender_def comp_def)

lemma status_respond [simp]: "status (respond code b) = code"
  by (simp add: respond_def)

lemma get_messages_ok:
  assumes "castObjectId (JStr conversationId) = Some cid"
    and "Conversation_findById_q st cid = Some c"
    and "user_id u \<in> set (participants c)"
    and "\<not> fails e Conversation_findById" and "\<not> fails e Message_find" and "\<not> fails e Populate"
  shows "get_messages e u conversationId st =
           respond 200 (Messages_body (map (populate_sender st) (Message_find_q st cid)))"
  using assms by (simp add: get_messages_def Let_def isParticipant_iff)

lemma Message_find_sorted:
  "mset (Message_find_q st cid) = mset (history st cid)"
  "sorted (map msg_createdAt (Message_find_q st cid))"
  by (simp_all add: Message_find_q_def history_def)

lemma Message_find_stable:
  "filter (\<lambda>m. msg_createdAt m = t) (Message_find_q st cid) =
     filter (\<lambda>m. msg_createdAt m = t) (history st cid)"
  by (simp add: Message_find_q_def history_def sort_key_stable)

text \<open>
  Claim C8, as amended. For every authenticated GET request for the messages of a
  conversation, with the lookup of the conversation not throwing: a conversation id that
  is not a well-formed object id is answered 400; a well-formed id that resolves to no
  conversation is answered 404; a conversation of which the caller is no participant is
  answered 403; otherwise, the two remaining database calls not throwing, the answer is
  200 with the messages of the conversation in ascending order of \<open>createdAt\<close>.
\<close>

theorem get_messages_statuses:
  "(castObjectId (JStr conversationId) = None \<longrightarrow>
      status (get_messages e u conversationId st) = 400)
   \<and> (castObjectId (JStr conversationId) = Some cid \<and> \<not> fails e Conversation_findById
      \<and> Conversation_findById_q st cid = None \<longrightarrow>
      status (get_messages e u conversationId st) = 404)
   \<and> (castObjectId (JStr conversationId) = Some cid \<and> \<not> fails e Conversation_findById
      \<and> Conversation_findById_q st cid = Some c \<and> user_id u \<notin> set (participants c) \<longrightarrow>
      status (get_messages e u conversationId st) = 403)
   \<and> (castObjectId (JStr conversationId) = Some cid \<and> \<not> fails e Conversation_findById
      \<and> Conversation_findById_q st cid = Some c \<and> user_id u \<in> set (participants c)
      \<and> \<not> fails e Message_find \<and> \<not> fails e Populate \<longrightarrow>
      status (get_messages e u conversationId st) = 200
      \<and> mset (returned_messages (get_messages e u conversationId st)) = mset (history st cid)
      \<and> sorted (map msg_createdAt (returned_messages (get_messages e u conversationId st))))"
proof (intro conjI impI; (elim conjE)?)
  assume "castObjectId (JStr conversationId) = None"
  then show "status (get_messages e u conversationId st) = 400"
    by (simp add: get_messages_def Let_def)
next
  assume "castObjectId (JStr conversationId) = Some cid" "\<not> fails e Conversation_findById"
    "Conversation_findById_q st cid = None"
  then show "status (get_messages e u conversationId st) = 404"
    by (simp add: get_messages_def Let_def)
next
  assume "castObjectId (JStr conversationId) = Some cid" "\<not> fails e Conversation_findById"
    "Conversation_findById_q st cid = Some c" "user_id u \<notin> set (participants c)"
  then show "status (get_messages e u conversationId st) = 403"
    by (simp add: get_messages_def Let_def isParticipant_iff)
next
  assume a: "castObjectId (JStr conversationId) = Some cid" "\<not> fails e Conversation_findById"
    "Conversation_findById_q st cid = Some c" "user_id u \<in> set (participants c)"
    "\<not> fails e Message_find" "\<not> fails e Populate"
  have r: "get_messages e u conversationId st =
           respond 200 (Messages_body (map (populate_sender st) (Message_find_q st cid)))"
    using a by (simp add: get_messages_ok)
  show "status (get_messages e u conversationId st) = 200"
    "mset (returned_messages (get_messages e u conversationId st)) = mset (history st cid)"
    "sorted (map msg_createdAt (returned_messages (get_messages e u conversationId st)))"
    by (simp_all add: r Message_find_sorted)
qed

lemma short_id: "castObjectId (JStr (ascii ''abc'')) = None"
  by (simp add: castObjectId_def ascii_def)

lemma shop_no_99: "Conversation_findById_q shop 99 = None"
  by (simp add: Conversation_findById_q_def shop_def talk_def)

lemma carol_not_in_talk: "user_id carol \<notin> set (participants talk)"
  by (simp add: carol_def talk_def)

theorem get_messages_statuses_witness:
  "status (get_messages quiet alice (ascii ''abc'') shop) = 400
   \<and> status (get_messages quiet alice (oid_toString 99) shop) = 404
   \<and> status (get_messages quiet carol (oid_toString 16) shop) = 403
   \<and> status (get_messages quiet alice (oid_toString 16) shop) = 200
   \<and> sorted (map msg_createdAt (returned_messages (get_messages quiet alice (oid_toString 16) shop)))"
  using get_messages_statuses
      [where conversationId = "ascii ''abc''" and e = quiet and u = alice and st = shop]
    get_messages_statuses
      [where conversationId = "oid_toString 99" and cid = 99 and e = quiet and u = alice
         and st = shop]
    get_messages_statuses
      [where conversationId = "oid_toString 16" and cid = 16 and e = quiet and u = carol
         and st = shop and c = talk]
    get_messages_statuses
      [where conversationId = "oid_toString 16" and cid = 16 and e = quiet and u = alice
         and st = shop and c = talk]
  by (simp add: short_id castObjectId_toString shop_no_99 shop_talk carol_not_in_talk alice_in_talk
      quiet_never_fails)

text \<open>
  The claim as first stated fails: the id \<open>abc\<close> resolves to no conversation, and the
  request is answered 400, not 404.
\<close>

theorem malformed_id_is_answered_400:
  "castObjectId (JStr (ascii ''abc'')) = None
   \<and> status (get_messages quiet alice (ascii ''abc'') shop) = 400"
  by (simp add: short_id get_messages_def)


lemma get_messages_200D:
  assumes "status (get_messages e u conversationId st) = 200"
    and "castObjectId (JStr conversationId) = Some cid"
  shows "get_messages e u conversationId st =
           respond 200 (Messages_body (map (populate_sender st) (Message_find_q st cid)))"
  using assms
  by (auto simp: get_messages_def Let_def split: option.splits if_splits)

lemma history_after_send:
  "history (after_send e c u text st) cid =
     history st cid @ (if conv_id c = cid then [sent_message e (conv_id c) u text] else [])"
  by (simp add: history_def after_send_def sent_message_def)

text \<open>What a send that went through has added to the history of its conversation.\<close>

lemma message_of_stamp: "message_of cid s = Some m \<Longrightarrow> msg_createdAt m = stamp s"
  by (cases s) auto

lemma send_one_history:
  assumes "castObjectId (JStr conversationId) = Some cid"
    and "send_one conversationId s srv = (srv1, True)"
  shows "\<exists>m. message_of cid s = Some m \<and> history (db srv1) cid = history (db srv) cid @ [m]"
proof (cases s)
  case (Rest_send e u content)
  obtain st' r es where one: "post_message e u conversationId content (db srv) = (st', r, es)"
    by (cases "post_message e u conversationId content (db srv)")
  with assms(2) Rest_send have srv1: "srv1 = srv\<lparr>db := st'\<rparr>" and ok: "status r = 201"
    by simp_all
  from one ok obtain t where c: "content = JStr t"
    and p: "persist_and_broadcast e u conversationId (trim t) (db srv) = (st', r, es)"
    by (rule post_message_201D)
  from p ok obtain c' where "Conversation_findById_q (db srv) cid = Some c'"
    and st': "st' = after_send e c' u (trim t) (db srv)"
    using assms(1) by (auto elim: persist_201D)
  then have "conv_id c' = cid" by (simp add: findById_conv_id)
  with st' srv1 Rest_send c show ?thesis
    by (simp add: history_after_send sent_message_def trimmed_def)
next
  case (Socket_send e sock content)
  with assms(2) have went: "sent srv (on_message_send e sock (Some (JStr conversationId, content)) srv)"
    and srv1: "srv1 = fst (on_message_send e sock (Some (JStr conversationId, content)) srv)"
    by simp_all
  from went show ?thesis
  proof (rule on_message_send_sentD)
    fix conversationId' t cid' c' u
    assume "Some (JStr conversationId, content) = Some (JStr conversationId', JStr t)"
      and "castObjectId (JStr conversationId') = Some cid'"
      and "Conversation_findById_q (db srv) cid' = Some c'"
      and "sock_user sock = Some u"
      and "on_message_send e sock (Some (JStr conversationId, content)) srv =
           (srv\<lparr>db := after_send e c' u (trim t) (db srv)\<rparr>,
            send_events e c' u (trim t) conversationId' (db srv), False)"
    with assms(1) srv1 Socket_send show ?thesis
      by (auto simp: history_after_send sent_message_def trimmed_def dest: findById_conv_id)
  qed
qed

lemma send_all_history:
  assumes "castObjectId (JStr conversationId) = Some cid"
    and "send_all conversationId sends srv = (srv', oks)"
    and "list_all (\<lambda>ok. ok) oks"
  shows "\<exists>new. history (db srv') cid = history (db srv) cid @ new
               \<and> map Some new = map (message_of cid) sends"
  using assms(2,3)
proof (induction sends arbitrary: srv srv' oks)
  case Nil
  then show ?case by simp
next
  case (Cons s sends)
  obtain srv1 ok where one: "send_one conversationId s srv = (srv1, ok)"
    by (cases "send_one conversationId s srv")
  obtain srv2 oks' where rest: "send_all conversationId sends srv1 = (srv2, oks')"
    by (cases "send_all conversationId sends srv1")
  from Cons.prems one rest have srv': "srv' = srv2" and "oks = ok # oks'" by simp_all
  with Cons.prems have ok: "ok" and oks: "list_all (\<lambda>ok. ok) oks'" by simp_all
  from one ok have "send_one conversationId s srv = (srv1, True)" by simp
  with assms(1) obtain m where m: "message_of cid s = Some m"
    and h1: "history (db srv1) cid = history (db srv) cid @ [m]"
    using send_one_history by blast
  from Cons.IH [OF rest oks] obtain new where
    h2: "history (db srv2) cid = history (db srv1) cid @ new"
    and new: "map Some new = map (message_of cid) sends"
    by blast
  from m h1 h2 new srv' show ?case
    by (intro exI [of _ "m # new"]) simp
qed

text \<open>The sort leaves in place what is appended in order and not before what precedes it.\<close>

lemma insort_key_before_later:
  "\<forall>y \<in> set ys. f x \<le> f y \<Longrightarrow> insort_key f x (as @ ys) = insort_key f x as @ ys"
  by (induction as) (cases ys; simp)+

lemma sort_key_old_then_new:
  assumes "sorted (map f ys)" and "\<forall>x \<in> set xs. \<forall>y \<in> set ys. f x \<le> f y"
  shows "sort_key f (xs @ ys) = sort_key f xs @ ys"
  using assms(2)
proof (induction xs)
  case Nil
  from assms(1) show ?case by (simp add: sort_key_id_if_sorted)
next
  case (Cons x xs)
  then have "sort_key f (xs @ ys) = sort_key f xs @ ys" and "\<forall>y \<in> set ys. f x \<le> f y"
    by simp_all
  then show ?case by (simp add: insort_key_before_later)
qed


lemma trim_one_two:
  "trim (ascii ''one'') = ascii ''one''" "ascii ''one'' \<noteq> []"
  "trim (ascii ''two'') = ascii ''two''" "ascii ''two'' \<noteq> []"
  by (simp_all add: trim_def ascii_def is_js_space_def)

lemma bob_in_talk: "user_id bob \<in> set (participants talk)"
  by (simp add: bob_def talk_def)

lemma participants_summarised [simp]: "participants (summarised e u text c) = participants c"
  by (simp add: summarised_def)

text \<open>
  Alice posts \<open>"one"\<close> on the REST route and Bob sends \<open>"two"\<close> over his socket, both
  within one reading of the clock.
\<close>

lemma one_then_two:
  "send_all (oid_toString 16)
     [Rest_send quiet alice (JStr (ascii ''one'')),
      Socket_send quiet_again bob_socket (JStr (ascii ''two''))] lobby =
   (lobby\<lparr>db := after_send quiet_again (summarised quiet alice (ascii ''one'') talk) bob
                    (ascii ''two'') (after_send quiet talk alice (ascii ''one'') shop)\<rparr>,
    [True, True])"
proof -
  let ?c1 = "summarised quiet alice (ascii ''one'') talk"
  let ?st1 = "after_send quiet talk alice (ascii ''one'') shop"
  have db: "db lobby = shop" and bob: "sock_user bob_socket = Some bob"
    by (simp_all add: lobby_def bob_socket_def)
  have q: "\<not> fails quiet_again op" for op by (simp add: quiet_again_def quiet_def)
  have one: "post_message quiet alice (oid_toString 16) (JStr (ascii ''one'')) shop =
      (?st1,
       respond 201 (Message_body (populate_sender ?st1 (sent_message quiet 16 alice (ascii ''one'')))),
       if io_registered quiet
       then send_events quiet talk alice (ascii ''one'') (oid_toString 16) shop else [])"
    using post_message_ok [of "JStr (ascii ''one'')" "ascii ''one''" "oid_toString 16" 16 shop talk
        alice quiet]
    by (simp add: trim_one_two castObjectId_toString shop_talk alice_in_talk quiet_never_fails)
  have find1: "Conversation_findById_q ?st1 16 = Some ?c1"
    by (rule findById_after_send [OF shop_talk])
  have two: "on_message_send quiet_again bob_socket
               (Some (JStr (oid_toString 16), JStr (ascii ''two''))) (lobby\<lparr>db := ?st1\<rparr>) =
      (lobby\<lparr>db := after_send quiet_again ?c1 bob (ascii ''two'') ?st1\<rparr>,
       send_events quiet_again ?c1 bob (ascii ''two'') (oid_toString 16) ?st1, False)"
    using on_message_send_ok [of "ascii ''two''" "oid_toString 16" 16 "lobby\<lparr>db := ?st1\<rparr>" ?c1
        bob_socket bob quiet_again]
    by (simp add: trim_one_two castObjectId_toString find1 bob bob_in_talk q)
  have went: "sent (lobby\<lparr>db := ?st1\<rparr>)
      (lobby\<lparr>db := after_send quiet_again ?c1 bob (ascii ''two'') ?st1\<rparr>,
       send_events quiet_again ?c1 bob (ascii ''two'') (oid_toString 16) ?st1, False)"
    using sent_after_send [of "lobby\<lparr>db := ?st1\<rparr>" quiet_again ?c1 bob "ascii ''two''"] by simp
  show ?thesis
    by (simp add: db one two went)
qed


section \<open>Finding or creating a conversation\<close>

lemma find_map_same_test:
  assumes "\<And>x. P (f x) = P x"
  shows "find P (map f xs) = map_option f (find P xs)"
  using assms by (induction xs) auto

lemma find_append: "find P (xs @ ys) = (case find P xs of None \<Rightarrow> find P ys | Some x \<Rightarrow> Some x)"
  by (induction xs) auto

lemma findOne_commute: "Conversation_findOne_q st a b = Conversation_findOne_q st b a"
  by (simp add: Conversation_findOne_q_def conj_commute)

lemma findOne_save_post:
  "Conversation_findOne_q (save_post e k rp st) a b =
     map_option (\<lambda>c. if conv_id c = k then c\<lparr>post := rp, conv_updatedAt := t_save e\<rparr> else c)
       (Conversation_findOne_q st a b)"
  unfolding Conversation_findOne_q_def save_post_def
  by (simp add: find_map_same_test)

lemma findOne_append:
  "Conversation_findOne_q (st\<lparr>conversations := conversations st @ [c]\<rparr>) a b =
     (case Conversation_findOne_q st a b of
        None \<Rightarrow> if a \<in> set (participants c) \<and> b \<in> set (participants c) then Some c else None
      | Some c' \<Rightarrow> Some c')"
  by (auto simp: Conversation_findOne_q_def find_append split: option.splits)

lemma related_post_defined:
  assumes "\<not> fails e Post_findById"
  shows "\<exists>rp. related_post e st postId = Some rp"
  using assms by (cases "castObjectId postId") (simp_all add: related_post_def)

lemma conversation_lookup_ok:
  assumes "\<forall>op. \<not> fails e op"
    and "castObjectId participantId = Some pid"
    and "pid \<noteq> user_id u"
    and "User_findById_q st pid = Some pu"
    and "related_post e st postId = Some rp"
  shows "conversation_lookup e u participantId postId st =
           (case Conversation_findOne_q st (user_id u) pid of
              None \<Rightarrow> Absent pid rp
            | Some c \<Rightarrow> Found c (has_post st c) rp)"
proof -
  have "truthy participantId" using assms(2) by (rule castObjectId_truthy)
  moreover have "isValid participantId" using assms(2) by (simp add: isValid_def)
  moreover have "participantId \<noteq> JStr (oid_toString (user_id u))"
    using assms(2,3) by (auto simp: castObjectId_toString)
  ultimately show ?thesis using assms
    by (simp add: conversation_lookup_def Let_def split: option.splits)
qed

text \<open>What an uninterrupted creation request does, by what its lookup finds.\<close>

lemma create_when_absent:
  assumes "\<forall>op. \<not> fails e op"
    and "castObjectId participantId = Some pid"
    and "pid \<noteq> user_id u"
    and "User_findById_q st pid = Some pu"
    and "related_post e st postId = Some rp"
    and "Conversation_findOne_q st (user_id u) pid = None"
  shows "create_conversation e u participantId postId st =
           (st\<lparr>conversations := conversations st @ [new_conversation e (user_id u) pid rp]\<rparr>,
            respond 200 (Conversation_body (new_conversation e (user_id u) pid rp)))"
  using assms
  by (simp add: create_conversation_def conversation_lookup_ok [OF assms(1-5)]
      conversation_finish_def Let_def)

lemma create_when_found:
  assumes "\<forall>op. \<not> fails e op"
    and "castObjectId participantId = Some pid"
    and "pid \<noteq> user_id u"
    and "User_findById_q st pid = Some pu"
    and "related_post e st postId = Some rp"
    and "Conversation_findOne_q st (user_id u) pid = Some c"
  shows "create_conversation e u participantId postId st =
           (if rp \<noteq> None \<and> \<not> has_post st c
            then (save_post e (conv_id c) rp st,
                  respond 200 (Conversation_body (c\<lparr>post := rp, conv_updatedAt := t_save e\<rparr>)))
            else (st, respond 200 (Conversation_body c)))"
  using assms
  by (simp add: create_conversation_def conversation_lookup_ok [OF assms(1-5)]
      conversation_finish_def Let_def)


lemma users_save_post [simp]: "users (save_post e k rp st) = users st"
  by (simp add: save_post_def)

lemma create_then_lookup:
  assumes "\<forall>op. \<not> fails e op"
    and "castObjectId participantId = Some pid"
    and "pid \<noteq> user_id u"
    and "User_findById_q st pid = Some pu"
  shows "\<exists>c st' c'. create_conversation e u participantId postId st =
                       (st', respond 200 (Conversation_body c))
           \<and> users st' = users st
           \<and> Conversation_findOne_q st' (user_id u) pid = Some c'
           \<and> conv_id c' = conv_id c \<and> participants c' = participants c"
proof -
  from assms(1) obtain rp where rp: "related_post e st postId = Some rp"
    using related_post_defined by blast
  show ?thesis
  proof (cases "Conversation_findOne_q st (user_id u) pid")
    case None
    show ?thesis
      unfolding create_when_absent [OF assms rp None]
      by (intro exI [of _ "new_conversation e (user_id u) pid rp"]
            exI [of _ "st\<lparr>conversations := conversations st
                                 @ [new_conversation e (user_id u) pid rp]\<rparr>"])
         (simp add: findOne_append None new_conversation_def)
  next
    case (Some c0)
    show ?thesis
    proof (cases "rp \<noteq> None \<and> \<not> has_post st c0")
      case True
      then show ?thesis
        unfolding create_when_found [OF assms rp Some]
        by (intro exI [of _ "c0\<lparr>post := rp, conv_updatedAt := t_save e\<rparr>"]
              exI [of _ "save_post e (conv_id c0) rp st"])
           (simp add: findOne_save_post Some)
    next
      case False
      then show ?thesis
        unfolding create_when_found [OF assms rp Some]
        by (intro exI [of _ c0] exI [of _ st] exI [of _ c0]) (auto simp: Some)
    qed
  qed
qed

lemma create_finds_existing:
  assumes "\<forall>op. \<not> fails e op"
    and "castObjectId participantId = Some pid"
    and "pid \<noteq> user_id u"
    and "User_findById_q st pid = Some pu"
    and "Conversation_findOne_q st (user_id u) pid = Some c0"
  shows "\<exists>c. snd (create_conversation e u participantId postId st) =
               respond 200 (Conversation_body c)
           \<and> conv_id c = conv_id c0 \<and> participants c = participants c0"
proof -
  from assms(1) obtain rp where rp: "related_post e st postId = Some rp"
    using related_post_defined by blast
  show ?thesis
    unfolding create_when_found [OF assms(1-4) rp assms(5)] by auto
qed

lemma User_findById_same_users:
  "users st' = users st \<Longrightarrow> User_findById_q st' uid = User_findById_q st uid"
  by (simp add: User_findById_q_def)

text \<open>The participants of the stored conversations, in order: all the pair count reads.\<close>

lemma pair_count_participants:
  "pair_count st a b =
     length (filter (\<lambda>ps. set ps = {a, b}) (map participants (conversations st)))"
  by (simp add: pair_count_def filter_map comp_def)

lemma participants_insert_message [simp]:
  "conversations (insert_message m st) = conversations st"
  by (simp add: insert_message_def)

lemma participants_save_lastMessage [simp]:
  "map participants (conversations (save_lastMessage e k lm st)) =
     map participants (conversations st)"
  by (simp add: save_lastMessage_def comp_def if_distrib [of participants] cong: if_cong)

lemma participants_save_post [simp]:
  "map participants (conversations (save_post e k rp st)) = map participants (conversations st)"
  by (simp add: save_post_def comp_def if_distrib [of participants] cong: if_cong)

lemma persist_keeps_participants:
  "map participants (conversations (fst (persist_and_broadcast e u conversationId text st))) =
     map participants (conversations st)"
  by (simp add: persist_and_broadcast_def Let_def split: option.splits)

lemma post_message_keeps_participants:
  "map participants (conversations (fst (post_message e u conversationId content st))) =
     map participants (conversations st)"
  by (simp add: post_message_def persist_keeps_participants split: jsval.splits)

lemma send_to_conversation_keeps_participants:
  "map participants (conversations (db (fst (send_to_conversation e sock v text srv)))) =
     map participants (conversations (db srv))"
  by (simp add: send_to_conversation_def Let_def split: option.splits)

lemma on_message_send_keeps_participants:
  "map participants (conversations (db (fst (on_message_send e sock payload srv)))) =
     map participants (conversations (db srv))"
proof -
  have "map participants (conversations (db srv')) = map participants (conversations (db srv))"
    if "send_to_conversation e sock v t srv = (srv', es)" for v t srv' es
    using send_to_conversation_keeps_participants [of e sock v t srv] that by simp
  then show ?thesis
    by (auto simp: on_message_send_def split: option.splits jsval.splits prod.splits)
qed

lemma lookup_AbsentD:
  assumes "conversation_lookup e u participantId postId st = Absent pid rp"
  shows "Conversation_findOne_q st (user_id u) pid = None"
  using assms
  by (auto simp: conversation_lookup_def Let_def split: if_splits option.splits)

lemma create_participants:
  "map participants (conversations (fst (create_conversation e u participantId postId st))) =
     map participants (conversations st)
   \<or> (\<exists>pid. map participants (conversations (fst (create_conversation e u participantId postId st)))
             = map participants (conversations st) @ [[user_id u, pid]]
          \<and> Conversation_findOne_q st (user_id u) pid = None)"
proof (cases "conversation_lookup e u participantId postId st")
  case (Respond r)
  then show ?thesis by (simp add: create_conversation_def conversation_finish_def)
next
  case (Found c populated rp)
  then show ?thesis by (simp add: create_conversation_def conversation_finish_def)
next
  case (Absent pid rp)
  then have "Conversation_findOne_q st (user_id u) pid = None" by (rule lookup_AbsentD)
  with Absent show ?thesis
    by (simp add: create_conversation_def conversation_finish_def Let_def new_conversation_def)
qed


lemma no_pair_when_none_found:
  assumes "Conversation_findOne_q st a b = None"
  shows "pair_count st a b = 0" and "pair_count st b a = 0"
proof -
  from assms have "\<not> (\<exists>c \<in> set (conversations st). a \<in> set (participants c) \<and> b \<in> set (participants c))"
    by (simp add: Conversation_findOne_q_def find_None_iff)
  then have "filter (\<lambda>c. set (participants c) = {a, b}) (conversations st) = []"
    by (auto simp: filter_empty_conv)
  then show "pair_count st a b = 0" by (simp add: pair_count_def)
  then show "pair_count st b a = 0" by (simp add: pair_count_def insert_commute)
qed

lemma pair_count_create:
  "pair_count (fst (create_conversation e u participantId postId st)) x y \<le> max 1 (pair_count st x y)"
  using create_participants [of e u participantId postId st]
proof (elim disjE exE conjE)
  assume "map participants (conversations (fst (create_conversation e u participantId postId st))) =
     map participants (conversations st)"
  then show ?thesis by (simp add: pair_count_participants)
next
  fix pid
  assume app: "map participants (conversations (fst (create_conversation e u participantId postId st)))
             = map participants (conversations st) @ [[user_id u, pid]]"
    and none: "Conversation_findOne_q st (user_id u) pid = None"
  show ?thesis
  proof (cases "{user_id u, pid} = {x, y}")
    case True
    then have "(x = user_id u \<and> y = pid) \<or> (x = pid \<and> y = user_id u)"
      by (auto simp: doubleton_eq_iff)
    then have "pair_count st x y = 0"
      using no_pair_when_none_found [OF none] by auto
    then show ?thesis by (simp add: pair_count_participants app)
  next
    case False
    then show ?thesis by (simp add: pair_count_participants app)
  qed
qed

lemma reachable_pairs: "reachable srv \<Longrightarrow> pair_count (db srv) x y \<le> 1"
proof (induction rule: reachable.induct)
  case (start st)
  then show ?case by (simp add: pair_count_def)
next
  case (connection srv sock)
  then show ?case by (simp add: on_connection_def)
next
  case (join srv sock conversationId)
  then show ?case by (simp add: on_conversation_join_def split: option.splits)
next
  case (leave srv sock conversationId)
  then show ?case by (simp add: on_conversation_leave_def split: option.splits)
next
  case (send srv e sock payload)
  then show ?case
    by (simp add: pair_count_participants on_message_send_keeps_participants)
next
  case (disconnect srv sock)
  then show ?case by (simp add: on_disconnect_def)
next
  case (create srv e u participantId postId)
  then show ?case
    using pair_count_create [of e u participantId postId "db srv" x y] by simp
next
  case (post srv e u conversationId content)
  then show ?case
    by (simp add: pair_count_participants post_message_keeps_participants)
qed

text \<open>
  Requests handled one at a time. For every pair of distinct valid users A and B, when
  the creation endpoint is called twice, the second call made by either participant once
  the first has been answered, the second call returns the conversation that the first
  returned; and in every state the server reaches while it handles each request to its
  end before the next, at most one Conversation exists for an unordered pair of
  participants.
\<close>

lemma find_or_create_in_turn:
  "(user_id a \<noteq> user_id b
      \<and> User_findById_q st (user_id a) \<noteq> None \<and> User_findById_q st (user_id b) \<noteq> None
      \<and> (\<forall>op. \<not> fails e1 op) \<and> (\<forall>op. \<not> fails e2 op)
      \<and> castObjectId p1 = Some (user_id b)
      \<and> ((u2 = a \<and> castObjectId p2 = Some (user_id b))
          \<or> (u2 = b \<and> castObjectId p2 = Some (user_id a))) \<longrightarrow>
      (\<exists>c1 c2.
         snd (create_conversation e1 a p1 post1 st) = respond 200 (Conversation_body c1)
         \<and> snd (create_conversation e2 u2 p2 post2 (fst (create_conversation e1 a p1 post1 st))) =
             respond 200 (Conversation_body c2)
         \<and> conv_id c2 = conv_id c1 \<and> participants c2 = participants c1))
   \<and> (reachable srv \<longrightarrow> pair_count (db srv) x y \<le> 1)"
proof (intro conjI impI; (elim conjE)?)
  assume ne: "user_id a \<noteq> user_id b"
    and ua: "User_findById_q st (user_id a) \<noteq> None"
    and ub: "User_findById_q st (user_id b) \<noteq> None"
    and e1: "\<forall>op. \<not> fails e1 op" and e2: "\<forall>op. \<not> fails e2 op"
    and p1: "castObjectId p1 = Some (user_id b)"
    and second: "(u2 = a \<and> castObjectId p2 = Some (user_id b))
          \<or> (u2 = b \<and> castObjectId p2 = Some (user_id a))"
  from ua ub obtain a' b' where ua': "User_findById_q st (user_id a) = Some a'"
    and ub': "User_findById_q st (user_id b) = Some b'" by auto
  from create_then_lookup [OF e1 p1 ne [symmetric] ub', of post1]
  obtain c1 st1 c1' where first: "create_conversation e1 a p1 post1 st =
                       (st1, respond 200 (Conversation_body c1))"
    and us: "users st1 = users st"
    and found: "Conversation_findOne_q st1 (user_id a) (user_id b) = Some c1'"
    and same: "conv_id c1' = conv_id c1" "participants c1' = participants c1"
    by blast
  have ua1: "User_findById_q st1 (user_id a) = Some a'"
    and ub1: "User_findById_q st1 (user_id b) = Some b'"
    using ua' ub' by (simp_all add: User_findById_same_users [OF us])
  from second have "\<exists>c2. snd (create_conversation e2 u2 p2 post2 st1) =
               respond 200 (Conversation_body c2)
           \<and> conv_id c2 = conv_id c1' \<and> participants c2 = participants c1'"
  proof
    assume "u2 = a \<and> castObjectId p2 = Some (user_id b)"
    then show ?thesis
      using create_finds_existing [OF e2 _ ne [symmetric] ub1 found, of p2 post2] by simp
  next
    assume "u2 = b \<and> castObjectId p2 = Some (user_id a)"
    then show ?thesis
      using create_finds_existing [OF e2 _ ne ua1, of p2 c1' post2] found
      by (simp add: findOne_commute [of st1 "user_id b"])
  qed
  with first same show "\<exists>c1 c2.
         snd (create_conversation e1 a p1 post1 st) = respond 200 (Conversation_body c1)
         \<and> snd (create_conversation e2 u2 p2 post2 (fst (create_conversation e1 a p1 post1 st))) =
             respond 200 (Conversation_body c2)
         \<and> conv_id c2 = conv_id c1 \<and> participants c2 = participants c1"
    by auto
next
  assume "reachable srv"
  then show "pair_count (db srv) x y \<le> 1" by (rule reachable_pairs)
qed

lemma empty_shop_users:
  "User_findById_q empty_shop 1 = Some alice" "User_findById_q empty_shop 2 = Some bob"
  by (simp_all add: User_findById_q_def empty_shop_def alice_def bob_def)

lemma no_post_asked: "related_post e st JUndefined = Some None"
  by (simp add: related_post_def)

lemma quiet_again_never_fails: "\<forall>op. \<not> fails quiet_again op"
  by (simp add: quiet_again_def quiet_def)

text \<open>
  Claim C4. For every pair of distinct valid users, a second call of the creation
  endpoint is to return the conversation of the first, and no reachable state is to hold
  more than one Conversation for an unordered pair. The route looks the pair up and
  creates when it finds nothing, in two database calls with an \<^verbatim>\<open>await\<close> between
  them. Let A ask for a conversation with B and B for one with A, on a store that holds
  no conversation, and let both lookups run before either request goes on: both find
  nothing, both create, and the state reached holds two conversations for the pair.
\<close>

theorem overlapping_requests_create_twice:
  fixes a b :: user and e1 e2 :: env
  assumes "user_id a \<noteq> user_id b"
    and "User_findById_q st (user_id a) = Some a'"
    and "User_findById_q st (user_id b) = Some b'"
    and "conversations st = []"
    and "\<forall>op. \<not> fails e1 op" and "\<forall>op. \<not> fails e2 op"
  shows "\<exists>st'. overlapping st' []
           \<and> map participants (conversations st') =
               [[user_id b, user_id a], [user_id a, user_id b]]
           \<and> pair_count st' (user_id a) (user_id b) = 2"
proof -
  let ?l1 = "conversation_lookup e1 a (JStr (oid_toString (user_id b))) JUndefined st"
  let ?l2 = "conversation_lookup e2 b (JStr (oid_toString (user_id a))) JUndefined st"
  let ?mid = "fst (conversation_finish e2 b ?l2 st)"
  let ?fin = "fst (conversation_finish e1 a ?l1 ?mid)"
  have none: "Conversation_findOne_q st x y = None" for x y
    using assms(4) by (simp add: Conversation_findOne_q_def)
  have l1: "?l1 = Absent (user_id b) None"
    using conversation_lookup_ok [OF assms(5) castObjectId_toString _ assms(3) no_post_asked,
        of a] assms(1)
    by (simp add: none)
  have l2: "?l2 = Absent (user_id a) None"
    using conversation_lookup_ok [OF assms(6) castObjectId_toString _ assms(2) no_post_asked,
        of b] assms(1)
    by (simp add: none)
  have "overlapping st []"
    using assms(4) by (rule overlapping.idle)
  then have "overlapping st [(e1, a, ?l1)]"
    by (rule overlapping.looked_up)
  then have "overlapping st [(e2, b, ?l2), (e1, a, ?l1)]"
    by (rule overlapping.looked_up)
  then have "overlapping ?mid (remove1 (e2, b, ?l2) [(e2, b, ?l2), (e1, a, ?l1)])"
    by (rule overlapping.finished) simp
  then have "overlapping ?mid [(e1, a, ?l1)]"
    by (simp only: remove1.simps if_True simp_thms)
  then have "overlapping ?fin (remove1 (e1, a, ?l1) [(e1, a, ?l1)])"
    by (rule overlapping.finished) simp
  then have run: "overlapping ?fin []"
    by (simp only: remove1.simps if_True simp_thms)
  have both: "map participants (conversations ?fin) =
      [[user_id b, user_id a], [user_id a, user_id b]]"
    using assms(4,5,6) by (simp add: l1 l2 conversation_finish_def Let_def new_conversation_def)
  have twice: "pair_count ?fin (user_id a) (user_id b) = 2"
    by (simp add: pair_count_participants both insert_commute)
  show ?thesis
    by (rule exI [of _ ?fin]) (intro conjI run both twice)
qed

text \<open>Alice asks for a conversation with Bob while Bob asks for one with Alice.\<close>

theorem overlapping_requests_create_twice_witness:
  "\<exists>st'. overlapping st' []
     \<and> map participants (conversations st') = [[2, 1], [1, 2]]
     \<and> pair_count st' 1 2 = 2"
proof -
  have "user_id alice \<noteq> user_id bob" "user_id alice = 1" "user_id bob = 2"
    "conversations empty_shop = []" "\<forall>op. \<not> fails quiet op"
    by (simp_all add: alice_def bob_def empty_shop_def quiet_def)
  then show ?thesis
    using overlapping_requests_create_twice [of alice bob empty_shop alice bob quiet quiet_again]
      empty_shop_users quiet_again_never_fails
    by simp
qed

end
